theory Spec2Isabelle
  imports Main "HOL-Library.AList" "HOL-Library.Sublist"
begin

section \<open>Strings and paths\<close>

text \<open>
  Python strings are modelled as \<open>string\<close>.  \<open>startswith s p\<close> is \<open>s.startswith(p)\<close> and
  \<open>endswith s p\<close> is \<open>s.endswith(p)\<close>.
\<close>

definition startswith :: "string \<Rightarrow> string \<Rightarrow> bool" where
  "startswith s p = (take (length p) s = p)"

definition endswith :: "string \<Rightarrow> string \<Rightarrow> bool" where
  "endswith s p = (length p \<le> length s \<and> drop (length s - length p) s = p)"

text \<open>\<open>split_on c s\<close> is \<open>s.split(c)\<close> for a one-character separator: it never returns
  the empty list, and \<open>n\<close> separators give \<open>n + 1\<close> pieces.\<close>

fun split_on :: "char \<Rightarrow> string \<Rightarrow> string list" where
  "split_on c [] = [[]]"
| "split_on c (x # xs) =
     (if x = c then [] # split_on c xs
      else (case split_on c xs of [] \<Rightarrow> [[x]] | l # ls \<Rightarrow> (x # l) # ls))"

text \<open>\<open>join_lines ls\<close> is \<open>"\n".join(ls)\<close>.\<close>

fun join_lines :: "string list \<Rightarrow> string" where
  "join_lines [] = []"
| "join_lines [l] = l"
| "join_lines (l # ls) = l @ CHR 0x0A # join_lines ls"

text \<open>
  \<open>path_name s\<close> is \<open>Path(s).name\<close> of pathlib on POSIX: the path is cut at every slash,
  empty components and \<open>.\<close> components are dropped, and the name is the last component
  that is left (the empty string when none is left, as for \<open>Path("/")\<close>).
\<close>

definition path_parts :: "string \<Rightarrow> string list" where
  "path_parts s = filter (\<lambda>p. p \<noteq> [] \<and> p \<noteq> ''.'') (split_on CHR ''/'' s)"

definition path_name :: "string \<Rightarrow> string" where
  "path_name s = (case path_parts s of [] \<Rightarrow> [] | p # ps \<Rightarrow> last (p # ps))"

text \<open>Absolute paths of the file system are lists of components; \<open>path_str\<close> is \<open>str(path)\<close>
  and \<open>p @ [a, b]\<close> is \<open>p / "a/b"\<close>.\<close>

type_synonym path = "string list"

fun path_str :: "path \<Rightarrow> string" where
  "path_str [] = ''/''"
| "path_str [c] = CHR ''/'' # c"
| "path_str (c # cs) = CHR ''/'' # c @ path_str cs"

section \<open>Configuration\<close>

text \<open>
  Modelled from the spec: the enumeration \<open>Cacheonly\<close> of mkosi.config is not part of the
  sources at hand; the spec lists its values as always, metadataExpireNever and default.
  The code only compares against \<open>Cacheonly.always\<close>.
\<close>

datatype Cacheonly = Cacheonly_always | Cacheonly_metadata | Cacheonly_default

text \<open>
  The fields of \<open>Config\<close> that \<open>Dnf\<close> reads.  Three of them stand for calls into code that is
  not part of the sources at hand and are taken as parameters:
  \<^item> \<open>find_binary cfg name\<close> is \<open>find_binary(name, root=config.tools())\<close>: the path found for
    \<open>name\<close> in the tools tree, if any;
  \<^item> \<open>architecture_is_native\<close> is \<open>config.architecture.is_native()\<close>;
  \<^item> \<open>distribution_architecture\<close> is \<open>config.distribution.architecture(config.architecture)\<close>.
\<close>

record Config =
  environment :: "string \<Rightarrow> string option"
  find_binary :: "string \<Rightarrow> string option"
  release :: string
  with_recommends :: bool
  repository_key_check :: bool
  repositories :: "string list"
  cacheonly :: Cacheonly
  architecture_is_native :: bool
  distribution_architecture :: string
  with_docs :: bool

text \<open>
  \<open>Dnf.executable\<close>:
  \<^verbatim>\<open>Path(dnf or find_binary("dnf5", root=root) or find_binary("dnf", root=root) or "yum").name\<close>.
  \<open>dnf\<close> is an optional string, so \<open>None\<close> and the empty string are both false for \<open>or\<close>;
  a path returned by \<open>find_binary\<close> is always true.
\<close>

definition executable :: "Config \<Rightarrow> string" where
  "executable config =
     (let dnf = environment config ''MKOSI_DNF'' in
      path_name
        (if dnf \<noteq> None \<and> dnf \<noteq> Some [] then the dnf
         else (case find_binary config ''dnf5'' of
                 Some p \<Rightarrow> p
               | None \<Rightarrow>
                   (case find_binary config ''dnf'' of
                      Some p \<Rightarrow> p
                    | None \<Rightarrow> ''yum''))))"

text \<open>\<open>Dnf.subdir\<close>; the result is the one-component path, given as its string.\<close>

definition subdir :: "Config \<Rightarrow> string" where
  "subdir config = (if executable config = ''dnf5'' then ''libdnf5'' else ''dnf'')"

text \<open>A configuration with nothing set and no binary in the tools tree, to build concrete
  inputs from.\<close>

definition plain_config :: Config where
  "plain_config =
     \<lparr> environment = (\<lambda>k. None), find_binary = (\<lambda>n. None), release = ''40'',
       with_recommends = False, repository_key_check = True, repositories = [],
       cacheonly = Cacheonly_default, architecture_is_native = True,
       distribution_architecture = ''x86_64'', with_docs = False \<rparr>"

section \<open>Text written to the repository files\<close>

text \<open>
  \<open>dedent\<close> is \<open>textwrap.dedent\<close> of the Python standard library: lines made only of
  blanks and tabs become empty; the margin is the longest common prefix of the leading
  blanks and tabs of all other non-empty lines; when the margin is not empty it is cut
  from the start of every line that starts with it.
\<close>

definition is_blank :: "char \<Rightarrow> bool" where
  "is_blank c = (c = CHR '' '' \<or> c = CHR 0x09)"

fun common_prefix :: "string \<Rightarrow> string \<Rightarrow> string" where
  "common_prefix (x # xs) (y # ys) = (if x = y then x # common_prefix xs ys else [])"
| "common_prefix xs ys = []"

definition dedent_margin :: "string list \<Rightarrow> string" where
  "dedent_margin ls =
     (case map (takeWhile is_blank) (filter (\<lambda>l. dropWhile is_blank l \<noteq> []) ls) of
        [] \<Rightarrow> []
      | i # is \<Rightarrow> foldl common_prefix i is)"

definition dedent :: "string \<Rightarrow> string" where
  "dedent text =
     (let ls = map (\<lambda>l. if list_all is_blank l then [] else l) (split_on CHR 0x0A text);
          margin = dedent_margin ls
      in if margin \<noteq> []
         then join_lines (map (\<lambda>l. if startswith l margin then drop (length margin) l else l) ls)
         else join_lines ls)"

text \<open>\<open>str_int\<close> is \<open>str\<close> on a Python integer.\<close>

fun str_nat :: "nat \<Rightarrow> string" where
  "str_nat n =
     (if n < 10 then [''0123456789'' ! n]
      else str_nat (n div 10) @ [''0123456789'' ! (n mod 10)])"

declare str_nat.simps [simp del]

definition str_int :: "int \<Rightarrow> string" where
  "str_int i = (if i < 0 then CHR ''-'' # str_nat (nat (- i)) else str_nat (nat i))"

text \<open>
  Modelled from the spec: the named tuple \<open>RpmRepository\<close> of mkosi.installer.rpm is not
  part of the sources at hand; the spec gives its fields as id, url, enabled, an ordered
  list of gpg URLs, optional ssl paths and an optional integer priority.  The ssl fields
  hold the text of a path object; a path object is true for \<open>if\<close> whatever its text.
\<close>

record RpmRepository =
  repo_id :: string
  url :: string
  gpgurls :: "string list"
  enabled :: bool
  sslcacert :: "string option"
  sslclientkey :: "string option"
  sslclientcert :: "string option"
  priority :: "int option"

text \<open>The f-string of lines 72 to 78 of dnf.py before \<open>dedent\<close>: five lines indented by 28
  blanks, and the 28 blanks in front of the closing quotes.\<close>

definition stanza_text :: "RpmRepository \<Rightarrow> string" where
  "stanza_text repo =
     replicate 28 CHR '' '' @ ''['' @ repo_id repo @ '']\<newline>'' @
     replicate 28 CHR '' '' @ ''name='' @ repo_id repo @ ''\<newline>'' @
     replicate 28 CHR '' '' @ url repo @ ''\<newline>'' @
     replicate 28 CHR '' '' @ ''gpgcheck=1\<newline>'' @
     replicate 28 CHR '' '' @ ''enabled='' @ (if enabled repo then ''1'' else ''0'') @ ''\<newline>'' @
     replicate 28 CHR '' ''"

text \<open>The loop \<open>for i, url in enumerate(repo.gpgurls)\<close>; \<open>f\<close> is the text written to the
  file so far.\<close>

fun write_gpgurls :: "nat \<Rightarrow> string list \<Rightarrow> string \<Rightarrow> string" where
  "write_gpgurls i [] f = f"
| "write_gpgurls i (u # urls) f =
     write_gpgurls (Suc i) urls
       ((f @ (if i = 0 then ''gpgkey='' else replicate (length ''gpgkey='') CHR '' ''))
          @ u @ ''\<newline>'')"

text \<open>What the body of \<open>for repo in repositories\<close> writes before the gpg loop (lines 70 to
  89).  \<open>if repo.priority\<close> is false for \<open>None\<close> and for \<open>0\<close>.\<close>

definition write_repo_head :: "RpmRepository \<Rightarrow> string \<Rightarrow> string" where
  "write_repo_head repo f =
     (let f = f @ dedent (stanza_text repo);
          f = (case sslcacert repo of Some p \<Rightarrow> f @ ''sslcacert='' @ p @ ''\<newline>'' | None \<Rightarrow> f);
          f = (case sslclientcert repo of
                 Some p \<Rightarrow> f @ ''sslclientcert='' @ p @ ''\<newline>'' | None \<Rightarrow> f);
          f = (case sslclientkey repo of
                 Some p \<Rightarrow> f @ ''sslclientkey='' @ p @ ''\<newline>'' | None \<Rightarrow> f)
      in if priority repo \<noteq> None \<and> priority repo \<noteq> Some 0
         then f @ ''priority='' @ str_int (the (priority repo)) @ ''\<newline>''
         else f)"

definition write_repo :: "RpmRepository \<Rightarrow> string \<Rightarrow> string" where
  "write_repo repo f = write_gpgurls 0 (gpgurls repo) (write_repo_head repo f) @ ''\<newline>''"

fun write_repos :: "RpmRepository list \<Rightarrow> string \<Rightarrow> string" where
  "write_repos [] f = f"
| "write_repos (repo # repos) f = write_repos repos (write_repo repo f)"

text \<open>The literal of lines 211 to 218 (\<open>createrepo\<close>) before \<open>dedent\<close>: indented by 16
  blanks.\<close>

definition local_repo_text :: string where
  "local_repo_text =
     replicate 16 CHR '' '' @ ''[mkosi]\<newline>'' @
     replicate 16 CHR '' '' @ ''name=mkosi\<newline>'' @
     replicate 16 CHR '' '' @ ''baseurl=file:///work/packages\<newline>'' @
     replicate 16 CHR '' '' @ ''gpgcheck=0\<newline>'' @
     replicate 16 CHR '' '' @ ''metadata_expire=never\<newline>'' @
     replicate 16 CHR '' '' @ ''priority=50\<newline>'' @
     replicate 16 CHR '' ''"

text \<open>The descriptor of the minimal scenario: one gpg URL, no ssl field, no priority.\<close>

definition base_repo :: RpmRepository where
  "base_repo =
     \<lparr> repo_id = ''base'', url = ''baseurl=file:///repo'', gpgurls = [''file:///key''],
       enabled = True, sslcacert = None, sslclientkey = None, sslclientcert = None,
       priority = None \<rparr>"

text \<open>
  Words of the spec about the gpg lines of a stanza, to state properties with: a
  gpgkey-family line starts with \<open>gpgkey=\<close> or with seven blanks;
  \<open>expected_gpgkey_lines\<close> are the lines expected for a list of gpg URLs.
\<close>

definition is_gpgkey_line :: "string \<Rightarrow> bool" where
  "is_gpgkey_line l = (startswith l ''gpgkey='' \<or> startswith l (replicate 7 CHR '' ''))"

fun expected_gpgkey_lines :: "string list \<Rightarrow> string list" where
  "expected_gpgkey_lines [] = []"
| "expected_gpgkey_lines (u # us) =
     (''gpgkey='' @ u) # map (\<lambda>v. replicate 7 CHR '' '' @ v) us"

text \<open>A descriptor is plain when none of its texts contains a newline and its url line
  is not itself a gpgkey-family line.\<close>

definition single_line :: "string \<Rightarrow> bool" where
  "single_line s = (CHR 0x0A \<notin> set s)"

definition plain_descriptor :: "RpmRepository \<Rightarrow> bool" where
  "plain_descriptor repo =
     (single_line (repo_id repo) \<and> single_line (url repo) \<and> \<not> is_gpgkey_line (url repo)
      \<and> (case sslcacert repo of Some p \<Rightarrow> single_line p | None \<Rightarrow> True)
      \<and> (case sslclientcert repo of Some p \<Rightarrow> single_line p | None \<Rightarrow> True)
      \<and> (case sslclientkey repo of Some p \<Rightarrow> single_line p | None \<Rightarrow> True)
      \<and> list_all single_line (gpgurls repo))"

text \<open>The lines of the stanza of a plain descriptor, without their newlines; the last one
  is the blank line.\<close>

definition stanza_lines :: "RpmRepository \<Rightarrow> string list" where
  "stanza_lines repo =
     [''['' @ repo_id repo @ '']'',
      ''name='' @ repo_id repo,
      (if list_all is_blank (url repo) then [] else url repo),
      ''gpgcheck=1'',
      ''enabled='' @ (if enabled repo then ''1'' else ''0'')]
     @ (case sslcacert repo of Some p \<Rightarrow> [''sslcacert='' @ p] | None \<Rightarrow> [])
     @ (case sslclientcert repo of Some p \<Rightarrow> [''sslclientcert='' @ p] | None \<Rightarrow> [])
     @ (case sslclientkey repo of Some p \<Rightarrow> [''sslclientkey='' @ p] | None \<Rightarrow> [])
     @ (case priority repo of
          Some n \<Rightarrow> if n = 0 then [] else [''priority='' @ str_int n]
        | None \<Rightarrow> [])
     @ expected_gpgkey_lines (gpgurls repo)
     @ [[]]"

section \<open>The file system\<close>

text \<open>
  A file system is an association list from absolute paths to nodes; the root \<open>[]\<close> is a
  directory and is not stored.  The order of the list is the order in which a directory
  is listed.  Symbolic links are not modelled.  Failing operations return the exception
  and the file system as it is at that point.
\<close>

datatype node = File string | Dir

datatype error =
  FileExistsError | NotADirectoryError | IsADirectoryError | FileNotFoundError
  | CalledProcessError int | OtherError string

type_synonym fs = "(path \<times> node) list"

definition lookup :: "fs \<Rightarrow> path \<Rightarrow> node option" where
  "lookup fs p = map_of fs p"

definition path_exists :: "fs \<Rightarrow> path \<Rightarrow> bool" where
  "path_exists fs p = (p = [] \<or> lookup fs p \<noteq> None)"

definition is_dir :: "fs \<Rightarrow> path \<Rightarrow> bool" where
  "is_dir fs p = (p = [] \<or> lookup fs p = Some Dir)"

text \<open>Sequencing of two operations: the second runs only when the first raised nothing.\<close>

definition seq ::
  "(fs \<Rightarrow> error option \<times> fs) \<Rightarrow> (fs \<Rightarrow> error option \<times> fs) \<Rightarrow> fs \<Rightarrow> error option \<times> fs" where
  "seq f g fs = (case f fs of (None, fs') \<Rightarrow> g fs' | (Some e, fs') \<Rightarrow> (Some e, fs'))"

text \<open>An operation keeps what exists when it changes no path that is there before it.\<close>

definition keeps :: "(fs \<Rightarrow> error option \<times> fs) \<Rightarrow> bool" where
  "keeps f = (\<forall>fs q. lookup fs q \<noteq> None \<longrightarrow> lookup (snd (f fs)) q = lookup fs q)"

text \<open>
  \<open>mkdir_parents p\<close> is \<open>p.mkdir(parents=True, exist_ok=True)\<close>: walking down from the root,
  a component that is a directory is kept, a missing one is created, and a component
  that is a file raises.
\<close>

fun mkdir_from :: "path \<Rightarrow> string list \<Rightarrow> fs \<Rightarrow> error option \<times> fs" where
  "mkdir_from pre [] fs = (None, fs)"
| "mkdir_from pre (c # cs) fs =
     (case lookup fs (pre @ [c]) of
        Some Dir \<Rightarrow> mkdir_from (pre @ [c]) cs fs
      | Some (File t) \<Rightarrow> (Some (if cs = [] then FileExistsError else NotADirectoryError), fs)
      | None \<Rightarrow> mkdir_from (pre @ [c]) cs (AList.update (pre @ [c]) Dir fs))"

definition mkdir_parents :: "path \<Rightarrow> fs \<Rightarrow> error option \<times> fs" where
  "mkdir_parents p fs = mkdir_from [] p fs"

text \<open>\<open>write_file p text\<close> is \<open>with p.open("w") as f\<close> with \<open>text\<close> written in the body, and
  also \<open>p.write_text(text)\<close>: the file is created or replaced.\<close>

definition write_file :: "path \<Rightarrow> string \<Rightarrow> fs \<Rightarrow> error option \<times> fs" where
  "write_file p text fs =
     (if is_dir fs p then (Some IsADirectoryError, fs)
      else if \<not> is_dir fs (butlast p)
      then (Some (if path_exists fs (butlast p) then NotADirectoryError
                  else FileNotFoundError), fs)
      else (None, AList.update p (File text) fs))"

text \<open>\<open>unlink p\<close> is \<open>p.unlink()\<close>: it removes a file and raises for a directory.\<close>

definition unlink :: "path \<Rightarrow> fs \<Rightarrow> error option \<times> fs" where
  "unlink p fs =
     (case lookup fs p of
        Some (File t) \<Rightarrow> (None, AList.delete p fs)
      | Some Dir \<Rightarrow> (Some IsADirectoryError, fs)
      | None \<Rightarrow> (Some FileNotFoundError, fs))"

text \<open>\<open>iterdir d\<close> lists the paths directly below \<open>d\<close>, each one once.\<close>

definition iterdir :: "path \<Rightarrow> fs \<Rightarrow> error + path list" where
  "iterdir d fs =
     (if is_dir fs d then Inr (remdups (filter (\<lambda>p. p \<noteq> [] \<and> butlast p = d) (map fst fs)))
      else if path_exists fs d then Inl NotADirectoryError
      else Inl FileNotFoundError)"

section \<open>Dnf\<close>

text \<open>\<open>arg_debug\<close> is the value of the global \<open>ARG_DEBUG\<close>.\<close>

record Context =
  config :: Config
  root :: path
  pkgmngr :: path
  packages :: path
  arg_debug :: bool

definition dnf_conf :: "Context \<Rightarrow> path" where
  "dnf_conf ctx = pkgmngr ctx @ [''etc'', ''dnf'', ''dnf.conf'']"

definition mkosi_repo :: "Context \<Rightarrow> path" where
  "mkosi_repo ctx = pkgmngr ctx @ [''etc'', ''yum.repos.d'', ''mkosi.repo'']"

definition mkosi_local_repo :: "Context \<Rightarrow> path" where
  "mkosi_local_repo ctx = pkgmngr ctx @ [''etc'', ''yum.repos.d'', ''mkosi-local.repo'']"

text \<open>\<open>Dnf.setup\<close> (the name \<open>setup\<close> is taken in Isabelle).\<close>

definition dnf_setup :: "Context \<Rightarrow> RpmRepository list \<Rightarrow> bool \<Rightarrow> fs \<Rightarrow> error option \<times> fs" where
  "dnf_setup ctx repos filelists =
     seq (mkdir_parents (pkgmngr ctx @ [''etc'', ''dnf'', ''vars'']))
    (seq (mkdir_parents (pkgmngr ctx @ [''etc'', ''yum.repos.d'']))
    (seq (\<lambda>fs. if \<not> path_exists fs (dnf_conf ctx)
               then seq (mkdir_parents (butlast (dnf_conf ctx)))
                      (write_file (dnf_conf ctx)
                         (if endswith (executable (config ctx)) ''dnf5'' \<and> filelists
                          then ''[main]\<newline>optional_metadata_types=filelists\<newline>''
                          else [])) fs
               else (None, fs))
         (\<lambda>fs. if \<not> path_exists fs (mkosi_repo ctx)
               then seq (mkdir_parents (butlast (mkosi_repo ctx)))
                      (write_file (mkosi_repo ctx) (write_repos repos [])) fs
               else (None, fs))))"

text \<open>\<open>Dnf.cmd\<close>.\<close>

definition cmd :: "Context \<Rightarrow> string list" where
  "cmd ctx =
     (let dnf = executable (config ctx) in
      [''env'',
       ''HOME=/'',
       dnf,
       ''--assumeyes'',
       ''--best'',
       ''--releasever='' @ release (config ctx),
       ''--installroot='' @ path_str (root ctx),
       ''--setopt=keepcache=1'',
       ''--setopt=logdir=/var/log'',
       ''--setopt=cachedir=/var/cache/'' @ subdir (config ctx),
       ''--setopt=persistdir=/var/lib/'' @ subdir (config ctx),
       ''--setopt=install_weak_deps='' @ (if with_recommends (config ctx) then ''1'' else ''0''),
       ''--setopt=check_config_file_age=0'',
       (if endswith dnf ''dnf5'' then ''--disable-plugin=*'' else ''--disableplugin=*''),
       (if endswith dnf ''dnf5'' then ''--enable-plugin=builddep'' else ''--enableplugin=builddep'')]
      @ (if arg_debug ctx then [''--setopt=debuglevel=10''] else [])
      @ (if \<not> repository_key_check (config ctx) then [''--nogpgcheck''] else [])
      @ (if repositories (config ctx) \<noteq> []
         then map (\<lambda>repo. (if endswith dnf ''dnf5'' then ''--enable-repo'' else ''--enablerepo'')
                            @ ''='' @ repo)
                (repositories (config ctx))
         else [])
      @ (if cacheonly (config ctx) = Cacheonly_always then [''--cacheonly'']
         else [''--setopt=metadata_expire=never'']
              @ (if dnf = ''dnf5'' then [''--setopt=cacheonly=metadata''] else []))
      @ (if \<not> architecture_is_native (config ctx)
         then [''--forcearch='' @ distribution_architecture (config ctx)] else [])
      @ (if \<not> with_docs (config ctx)
         then [if endswith dnf ''dnf5'' then ''--no-docs'' else ''--nodocs''] else [])
      @ (if endswith dnf ''dnf5'' then [''--use-host-config'']
         else [''--config=/etc/dnf/dnf.conf'',
               ''--setopt=reposdir=/etc/yum.repos.d'',
               ''--setopt=varsdir=/etc/dnf/vars'']))"

text \<open>
  The sandboxed execution \<open>run\<close> (with the source mounts and the sandbox around it) is not
  part of the sources at hand and is a parameter: given the command line and the file
  system, it returns or raises and leaves a file system.  A process that exits non-zero
  is one of the ways it raises.
\<close>

record CompletedProcess =
  returncode :: int

type_synonym runner = "string list \<Rightarrow> fs \<Rightarrow> (error + CompletedProcess) \<times> fs"

definition is_log_name :: "string \<Rightarrow> bool" where
  "is_log_name name = list_ex (\<lambda>prefix. startswith name prefix) [''dnf'', ''hawkey'', ''yum'']"

text \<open>The loop of the \<open>finally\<close> block over the entries of the log directory.\<close>

fun unlink_logs :: "path list \<Rightarrow> fs \<Rightarrow> error option \<times> fs" where
  "unlink_logs [] fs = (None, fs)"
| "unlink_logs (p # ps) fs =
     (if is_log_name (last p)
      then (case unlink p fs of
              (None, fs') \<Rightarrow> unlink_logs ps fs'
            | (Some e, fs') \<Rightarrow> (Some e, fs'))
      else unlink_logs ps fs)"

definition remove_logs :: "Context \<Rightarrow> fs \<Rightarrow> error option \<times> fs" where
  "remove_logs ctx fs =
     (if path_exists fs (root ctx @ [''var'', ''log''])
      then (case iterdir (root ctx @ [''var'', ''log'']) fs of
              Inl e \<Rightarrow> (Some e, fs)
            | Inr ps \<Rightarrow> unlink_logs ps fs)
      else (None, fs))"

text \<open>\<open>Dnf.invoke\<close>: the \<open>try\<close> body, then the \<open>finally\<close> block; an exception of the
  \<open>finally\<close> block replaces the outcome of the body.  The keyword arguments \<open>apivfs\<close> and
  \<open>stdout\<close> only reach the sandbox and the output of the external execution and are part
  of the runner.\<close>

definition invoke ::
  "runner \<Rightarrow> Context \<Rightarrow> string \<Rightarrow> string list \<Rightarrow> fs \<Rightarrow> (error + CompletedProcess) \<times> fs" where
  "invoke run ctx operation arguments fs =
     (case run (cmd ctx @ operation # arguments) fs of
        (outcome, fs1) \<Rightarrow>
          (case remove_logs ctx fs1 of
             (Some e, fs2) \<Rightarrow> (Inl e, fs2)
           | (None, fs2) \<Rightarrow> (outcome, fs2)))"

text \<open>\<open>Dnf.sync\<close>.\<close>

definition sync :: "runner \<Rightarrow> Context \<Rightarrow> string list \<Rightarrow> fs \<Rightarrow> error option \<times> fs" where
  "sync run ctx options fs =
     (case invoke run ctx ''makecache''
             (''--refresh''
                # (if executable (config ctx) = ''dnf5'' then [''--setopt=cacheonly=none'']
                   else [])
                @ options) fs of
        (Inl e, fs') \<Rightarrow> (Some e, fs')
      | (Inr r, fs') \<Rightarrow> (None, fs'))"

text \<open>\<open>Dnf.createrepo\<close>.\<close>

definition createrepo :: "runner \<Rightarrow> Context \<Rightarrow> fs \<Rightarrow> error option \<times> fs" where
  "createrepo run ctx fs =
     (case run [''createrepo_c'', path_str (packages ctx)] fs of
        (Inl e, fs1) \<Rightarrow> (Some e, fs1)
      | (Inr r, fs1) \<Rightarrow>
          seq (write_file (mkosi_local_repo ctx) (dedent local_repo_text))
              (sync run ctx [''--disablerepo=*'', ''--enablerepo=mkosi'']) fs1)"

text \<open>A build context on an empty workspace, to build concrete inputs from.\<close>

definition plain_context :: Context where
  "plain_context =
     \<lparr> config = plain_config, root = [''work'', ''root''], pkgmngr = [''work'', ''pkgmngr''],
       packages = [''work'', ''packages''], arg_debug = False \<rparr>"

text \<open>Two runners and two file systems with a log directory, to build concrete inputs from:
  \<open>run_ok\<close> returns with exit status 0, \<open>run_failing\<close> raises for exit status 1, and both
  leave the file system as it is.\<close>

definition run_ok :: runner where
  "run_ok cmdline fs = (Inr \<lparr> returncode = 0 \<rparr>, fs)"

definition run_failing :: runner where
  "run_failing cmdline fs = (Inl (CalledProcessError 1), fs)"

definition log_files_fs :: fs where
  "log_files_fs =
     [([''work''], Dir), ([''work'', ''root''], Dir), ([''work'', ''root'', ''var''], Dir),
      ([''work'', ''root'', ''var'', ''log''], Dir),
      ([''work'', ''root'', ''var'', ''log'', ''dnf5.log''], File ''a''),
      ([''work'', ''root'', ''var'', ''log'', ''lastlog''], File ''b''),
      ([''work'', ''root'', ''var'', ''log'', ''hawkey.log''], File ''c'')]"

definition log_directory_fs :: fs where
  "log_directory_fs =
     [([''work''], Dir), ([''work'', ''root''], Dir), ([''work'', ''root'', ''var''], Dir),
      ([''work'', ''root'', ''var'', ''log''], Dir),
      ([''work'', ''root'', ''var'', ''log'', ''dnf.d''], Dir),
      ([''work'', ''root'', ''var'', ''log'', ''dnf5.log''], File ''a'')]"

definition customized_local_repo_fs :: fs where
  "customized_local_repo_fs =
     [([''work''], Dir), ([''work'', ''pkgmngr''], Dir), ([''work'', ''pkgmngr'', ''etc''], Dir),
      ([''work'', ''pkgmngr'', ''etc'', ''yum.repos.d''], Dir),
      ([''work'', ''pkgmngr'', ''etc'', ''yum.repos.d'', ''mkosi-local.repo''],
       File ''[mine]\<newline>baseurl=file:///elsewhere\<newline>'')]"

section \<open>The binary resolver\<close>

lemma split_on_nonempty: "split_on c s \<noteq> []"
  by (induction s) (auto split: list.splits)

lemma split_on_no_sep: "p \<in> set (split_on c s) \<Longrightarrow> c \<notin> set p"
proof (induction s arbitrary: p)
  case Nil
  then show ?case by simp
next
  case (Cons x xs)
  obtain l ls where sp: "split_on c xs = l # ls"
    using split_on_nonempty [of c xs] by (cases "split_on c xs") auto
  have l: "c \<notin> set l" and ls: "\<And>q. q \<in> set ls \<Longrightarrow> c \<notin> set q"
    using Cons.IH sp by auto
  show ?case
  proof (cases "x = c")
    case True
    with Cons.prems sp l ls show ?thesis by auto
  next
    case False
    with Cons.prems sp l ls show ?thesis by auto
  qed
qed

lemma path_name_no_slash: "CHR ''/'' \<notin> set (path_name s)"
proof (cases "path_parts s")
  case Nil
  then show ?thesis by (simp add: path_name_def)
next
  case (Cons p ps)
  have "last (p # ps) \<in> set (path_parts s)"
    using Cons last_in_set [of "p # ps"] by simp
  then have "last (p # ps) \<in> set (split_on CHR ''/'' s)"
    by (simp add: path_parts_def)
  then have "CHR ''/'' \<notin> set (last (p # ps))"
    by (rule split_on_no_sep)
  with Cons show ?thesis by (simp add: path_name_def)
qed

lemma path_name_yum: "path_name ''yum'' = ''yum''"
  by (simp add: path_name_def path_parts_def)

text \<open>
  C2 (as amended).  \<open>executable\<close> returns the final path component of the first of: the
  value of \<open>MKOSI_DNF\<close> when it is set to a non-empty string; else the path found for
  \<open>dnf5\<close> in the tools tree; else the path found for \<open>dnf\<close> there; else \<open>yum\<close>, with no
  lookup.  The result never contains a slash.
\<close>

theorem executable_first_match:
  "executable cfg =
     (case environment cfg ''MKOSI_DNF'' of
        Some (c # cs) \<Rightarrow> path_name (c # cs)
      | _ \<Rightarrow>
          (case find_binary cfg ''dnf5'' of
             Some p \<Rightarrow> path_name p
           | None \<Rightarrow>
               (case find_binary cfg ''dnf'' of
                  Some p \<Rightarrow> path_name p
                | None \<Rightarrow> ''yum'')))
   \<and> CHR ''/'' \<notin> set (executable cfg)"
proof
  show "executable cfg =
     (case environment cfg ''MKOSI_DNF'' of
        Some (c # cs) \<Rightarrow> path_name (c # cs)
      | _ \<Rightarrow>
          (case find_binary cfg ''dnf5'' of
             Some p \<Rightarrow> path_name p
           | None \<Rightarrow>
               (case find_binary cfg ''dnf'' of
                  Some p \<Rightarrow> path_name p
                | None \<Rightarrow> ''yum'')))"
    by (simp add: executable_def path_name_yum split: option.splits list.splits)
  show "CHR ''/'' \<notin> set (executable cfg)"
    unfolding executable_def Let_def by (rule path_name_no_slash)
qed

text \<open>
  C2 (as stated) fails when \<open>MKOSI_DNF\<close> is set to the empty string: the variable is set,
  yet the result is not the name of its value but the binary found in the tools tree.
\<close>

theorem executable_empty_override_counterexample:
  "environment (plain_config\<lparr>environment := [''MKOSI_DNF'' \<mapsto> ''''],
       find_binary := [''dnf5'' \<mapsto> ''/usr/bin/dnf5'']\<rparr>) ''MKOSI_DNF'' = Some ''''
   \<and> executable (plain_config\<lparr>environment := [''MKOSI_DNF'' \<mapsto> ''''],
       find_binary := [''dnf5'' \<mapsto> ''/usr/bin/dnf5'']\<rparr>) = ''dnf5''
   \<and> path_name '''' \<noteq> ''dnf5''"
  by (simp add: executable_def plain_config_def path_name_def path_parts_def)

text \<open>
  C8.  \<open>subdir\<close> returns one of two different fixed names, but it decides by comparing the
  resolved name with \<open>dnf5\<close>, while \<open>setup\<close> and \<open>cmd\<close> decide the variant by
  \<open>endswith("dnf5")\<close>: two configurations whose resolved names both end in \<open>dnf5\<close> get
  different directory names.
\<close>

theorem subdir_same_variant_different_name:
  "endswith (executable (plain_config\<lparr>find_binary := [''dnf5'' \<mapsto> ''/usr/bin/dnf5'']\<rparr>)) ''dnf5''
   \<and> subdir (plain_config\<lparr>find_binary := [''dnf5'' \<mapsto> ''/usr/bin/dnf5'']\<rparr>) = ''libdnf5''
   \<and> endswith (executable (plain_config\<lparr>environment := [''MKOSI_DNF'' \<mapsto> ''/opt/bin/mydnf5'']\<rparr>))
         ''dnf5''
   \<and> subdir (plain_config\<lparr>environment := [''MKOSI_DNF'' \<mapsto> ''/opt/bin/mydnf5'']\<rparr>) = ''dnf''"
  by (simp add: subdir_def executable_def plain_config_def path_name_def path_parts_def
      endswith_def)

lemma subdir_two_names:
  "subdir cfg \<in> {''libdnf5'', ''dnf''} \<and> ''libdnf5'' \<noteq> ''dnf''
   \<and> (executable cfg = executable cfg' \<longrightarrow> subdir cfg = subdir cfg')"
  by (simp add: subdir_def)

text \<open>For a binary whose name merely ends in \<open>dnf5\<close>, \<open>cmd\<close> mixes the two variants: the
  next-gen flag spellings with the legacy state directory.\<close>

lemma cmd_mixed_variant:
  "''--use-host-config''
     \<in> set (cmd (plain_context\<lparr>config :=
                  plain_config\<lparr>environment := [''MKOSI_DNF'' \<mapsto> ''/opt/bin/mydnf5'']\<rparr>\<rparr>))
   \<and> ''--disable-plugin=*''
     \<in> set (cmd (plain_context\<lparr>config :=
                  plain_config\<lparr>environment := [''MKOSI_DNF'' \<mapsto> ''/opt/bin/mydnf5'']\<rparr>\<rparr>))
   \<and> ''--setopt=cachedir=/var/cache/dnf''
     \<in> set (cmd (plain_context\<lparr>config :=
                  plain_config\<lparr>environment := [''MKOSI_DNF'' \<mapsto> ''/opt/bin/mydnf5'']\<rparr>\<rparr>))"
  by (simp add: cmd_def subdir_def executable_def plain_context_def plain_config_def
      path_name_def path_parts_def endswith_def)

section \<open>The repository stanza\<close>

lemma replicate_7: "replicate 7 c = [c, c, c, c, c, c, c]"
  by (simp add: numeral_eq_Suc)

lemma write_gpgurls_later:
  "0 < i \<Longrightarrow>
   write_gpgurls i urls f = f @ concat (map (\<lambda>v. replicate 7 CHR '' '' @ v @ ''\<newline>'') urls)"
  by (induction urls arbitrary: i f) (simp_all add: replicate_7)

lemma write_gpgurls_first:
  "write_gpgurls 0 (u # us) f =
     f @ (''gpgkey='' @ u @ ''\<newline>'')
       @ concat (map (\<lambda>v. replicate 7 CHR '' '' @ v @ ''\<newline>'') us)"
  using write_gpgurls_later [of "Suc 0" us "f @ ''gpgkey='' @ u @ ''\<newline>''"] by simp

lemma split_on_line: "c \<notin> set l \<Longrightarrow> split_on c (l @ c # rest) = l # split_on c rest"
  by (induction l) auto

lemma split_on_terminated_lines:
  "\<forall>l \<in> set ls. c \<notin> set l \<Longrightarrow> split_on c (concat (map (\<lambda>l. l @ [c]) ls)) = ls @ [[]]"
  by (induction ls) (simp_all add: split_on_line)

text \<open>The optional lines of a stanza: an ssl line is written exactly when its field is
  present, the priority line exactly when the priority is present and not \<open>0\<close>.\<close>

lemma write_repo_head_optional_lines:
  "write_repo_head repo f =
     f @ dedent (stanza_text repo)
       @ (case sslcacert repo of Some p \<Rightarrow> ''sslcacert='' @ p @ ''\<newline>'' | None \<Rightarrow> [])
       @ (case sslclientcert repo of Some p \<Rightarrow> ''sslclientcert='' @ p @ ''\<newline>'' | None \<Rightarrow> [])
       @ (case sslclientkey repo of Some p \<Rightarrow> ''sslclientkey='' @ p @ ''\<newline>'' | None \<Rightarrow> [])
       @ (case priority repo of
            Some n \<Rightarrow> if n = 0 then [] else ''priority='' @ str_int n @ ''\<newline>''
          | None \<Rightarrow> [])"
  by (simp add: write_repo_head_def Let_def split: option.splits)

lemma split_on_none: "c \<notin> set l \<Longrightarrow> split_on c l = [l]"
  by (induction l) auto

lemma split_on_lines_then:
  "\<forall>l \<in> set ls. c \<notin> set l \<Longrightarrow>
   split_on c (concat (map (\<lambda>l. l @ [c]) ls) @ r) = ls @ split_on c r"
  by (induction ls) (simp_all add: split_on_line)

lemma common_prefix_append: "common_prefix xs (xs @ ys) = xs"
  by (induction xs) simp_all

lemma common_prefix_same: "common_prefix xs xs = xs"
  by (induction xs) simp_all

lemma blank_replicate: "list_all is_blank (replicate n CHR '' '')"
  by (simp add: list_all_iff is_blank_def)

lemma takeWhile_indent:
  "takeWhile is_blank (replicate n CHR '' '' @ x) = replicate n CHR '' '' @ takeWhile is_blank x"
  by (induction n) (simp_all add: is_blank_def)

lemma dropWhile_indent:
  "dropWhile is_blank (replicate n CHR '' '' @ x) = dropWhile is_blank x"
  by (induction n) (simp_all add: is_blank_def)

lemma dropWhile_all: "dropWhile P xs = [] \<longleftrightarrow> list_all P xs"
  by (induction xs) auto

lemma startswith_append: "startswith (p @ x) p"
  by (simp add: startswith_def)

lemma stanza_text_lines:
  "stanza_text repo =
     concat (map (\<lambda>l. l @ [CHR 0x0A])
       [replicate 28 CHR '' '' @ ''['' @ repo_id repo @ '']'',
        replicate 28 CHR '' '' @ ''name='' @ repo_id repo,
        replicate 28 CHR '' '' @ url repo,
        replicate 28 CHR '' '' @ ''gpgcheck=1'',
        replicate 28 CHR '' '' @ ''enabled='' @ (if enabled repo then ''1'' else ''0'')])
     @ replicate 28 CHR '' ''"
  by (simp add: stanza_text_def)

text \<open>\<open>dedent\<close> on the f-string of a descriptor whose id and url have no newline: the 28
  blanks go from every line, a url of blanks only leaves an empty line, and the blanks
  in front of the closing quotes leave nothing.\<close>

lemma dedent_stanza_text:
  assumes "single_line (repo_id repo)" and "single_line (url repo)"
  shows "dedent (stanza_text repo) =
           concat (map (\<lambda>l. l @ [CHR 0x0A])
             [''['' @ repo_id repo @ '']'',
              ''name='' @ repo_id repo,
              (if list_all is_blank (url repo) then [] else url repo),
              ''gpgcheck=1'',
              ''enabled='' @ (if enabled repo then ''1'' else ''0'')])"
proof -
  have sp: "split_on CHR 0x0A (stanza_text repo) =
       [replicate 28 CHR '' '' @ ''['' @ repo_id repo @ '']'',
        replicate 28 CHR '' '' @ ''name='' @ repo_id repo,
        replicate 28 CHR '' '' @ url repo,
        replicate 28 CHR '' '' @ ''gpgcheck=1'',
        replicate 28 CHR '' '' @ ''enabled='' @ (if enabled repo then ''1'' else ''0''),
        replicate 28 CHR '' '']"
    unfolding stanza_text_lines
    using assms
    by (subst split_on_lines_then) (auto simp: single_line_def split_on_none)
  show ?thesis
  proof (cases "list_all is_blank (url repo)")
    case True
    then show ?thesis
      unfolding dedent_def sp Let_def dedent_margin_def
      by (simp add: blank_replicate takeWhile_indent dropWhile_indent dropWhile_all
          is_blank_def common_prefix_append common_prefix_same startswith_append
          startswith_def)
  next
    case False
    then show ?thesis
      unfolding dedent_def sp Let_def dedent_margin_def
      by (simp add: blank_replicate takeWhile_indent dropWhile_indent dropWhile_all
          is_blank_def common_prefix_append common_prefix_same startswith_append)
  qed
qed

lemma str_nat_digits: "set (str_nat n) \<subseteq> set ''0123456789''"
proof (induction n rule: str_nat.induct)
  case (1 n)
  have d: "''0123456789'' ! k \<in> set ''0123456789''" if "k < 10" for k
    by (rule nth_mem) (use that in simp)
  show ?case
  proof (cases "n < 10")
    case True
    then show ?thesis
      using d [of n] by (subst str_nat.simps) simp
  next
    case False
    have "n mod 10 < 10" by simp
    then show ?thesis
      using False 1 d [of "n mod 10"] by (subst str_nat.simps) simp
  qed
qed

lemma single_line_str_int: "single_line (str_int i)"
  using str_nat_digits [of "nat i"] str_nat_digits [of "nat (- i)"]
  by (auto simp: single_line_def str_int_def)

lemma write_gpgurls_lines:
  "write_gpgurls 0 urls f
     = f @ concat (map (\<lambda>l. l @ [CHR 0x0A]) (expected_gpgkey_lines urls))"
proof (cases urls)
  case Nil
  then show ?thesis by simp
next
  case (Cons u us)
  have "concat (map (\<lambda>v. replicate 7 CHR '' '' @ v @ ''\<newline>'') us)
        = concat (map (\<lambda>l. l @ [CHR 0x0A]) (map (\<lambda>v. replicate 7 CHR '' '' @ v) us))"
    by (simp add: comp_def)
  then show ?thesis
    using Cons by (simp add: write_gpgurls_first del: write_gpgurls.simps)
qed

lemma write_repo_lines:
  assumes "single_line (repo_id repo)" and "single_line (url repo)"
  shows "write_repo repo f = f @ concat (map (\<lambda>l. l @ [CHR 0x0A]) (stanza_lines repo))"
  by (simp add: write_repo_def write_gpgurls_lines write_repo_head_optional_lines
      dedent_stanza_text [OF assms] stanza_lines_def split: option.splits)

lemma write_repo_after: "write_repo repo f = f @ write_repo repo []"
  by (simp add: write_repo_def write_gpgurls_lines write_repo_head_optional_lines)

lemma write_repos_stanzas:
  "write_repos repos f = f @ concat (map (\<lambda>repo. write_repo repo []) repos)"
proof (induction repos arbitrary: f)
  case Nil
  then show ?case by simp
next
  case (Cons repo repos)
  then show ?case
    using write_repo_after [of repo f] by simp
qed

lemma expected_gpgkey_lines_family:
  "l \<in> set (expected_gpgkey_lines urls) \<Longrightarrow> is_gpgkey_line l"
  by (cases urls) (auto simp: is_gpgkey_line_def startswith_def)

lemma expected_gpgkey_lines_single:
  "list_all single_line urls \<Longrightarrow> l \<in> set (expected_gpgkey_lines urls) \<Longrightarrow> single_line l"
  by (cases urls) (auto simp: single_line_def list_all_iff)

lemma stanza_lines_single:
  assumes "plain_descriptor repo"
  shows "\<forall>l \<in> set (stanza_lines repo). CHR 0x0A \<notin> set l"
proof -
  have g: "\<forall>l \<in> set (expected_gpgkey_lines (gpgurls repo)). CHR 0x0A \<notin> set l"
    using assms expected_gpgkey_lines_single [of "gpgurls repo"]
    by (auto simp: plain_descriptor_def single_line_def)
  have p: "CHR 0x0A \<notin> set (str_int n)" for n
    using single_line_str_int [of n] by (simp add: single_line_def)
  show ?thesis
    using assms g p
    by (auto simp: stanza_lines_def plain_descriptor_def single_line_def
        split: option.splits if_splits)
qed

lemma stanza_lines_gpgkey:
  assumes "plain_descriptor repo"
  shows "filter is_gpgkey_line (stanza_lines repo) = expected_gpgkey_lines (gpgurls repo)"
proof -
  have g: "filter is_gpgkey_line (expected_gpgkey_lines (gpgurls repo))
             = expected_gpgkey_lines (gpgurls repo)"
    using expected_gpgkey_lines_family by (simp add: filter_id_conv)
  have u: "\<not> is_gpgkey_line (url repo)"
    using assms by (simp add: plain_descriptor_def)
  have n: "\<not> is_gpgkey_line []"
    by (simp add: is_gpgkey_line_def startswith_def)
  have h: "\<not> is_gpgkey_line (c # x)" if "c \<noteq> CHR ''g''" "c \<noteq> CHR '' ''" for c x
    using that by (simp add: is_gpgkey_line_def startswith_def replicate_7)
  have k: "\<not> is_gpgkey_line (CHR ''g'' # CHR ''p'' # CHR ''g'' # CHR ''c'' # x)" for x
    by (simp add: is_gpgkey_line_def startswith_def replicate_7)
  show ?thesis
    unfolding stanza_lines_def
    by (simp add: g u n h k split: option.splits)
qed

text \<open>
  C9.  A descriptor that carries the priority \<open>0\<close> gets no \<open>priority=\<close> line: the stanza
  is the one of the same descriptor without a priority.
\<close>

theorem priority_zero_not_written:
  "write_repo (base_repo\<lparr>priority := Some 0\<rparr>) []
     = ''[base]\<newline>name=base\<newline>baseurl=file:///repo\<newline>gpgcheck=1\<newline>enabled=1\<newline>gpgkey=file:///key\<newline>\<newline>''
   \<and> write_repo (base_repo\<lparr>priority := Some 50\<rparr>) []
     = ''[base]\<newline>name=base\<newline>baseurl=file:///repo\<newline>gpgcheck=1\<newline>enabled=1\<newline>priority=50\<newline>gpgkey=file:///key\<newline>\<newline>''"
  by code_simp

section \<open>File system operations\<close>

lemma lookup_update: "lookup (AList.update p n fs) q = (if q = p then Some n else lookup fs q)"
  by (simp add: lookup_def update_conv')

lemma lookup_delete: "lookup (AList.delete p fs) q = (if q = p then None else lookup fs q)"
  by (simp add: lookup_def delete_conv')

lemma mkdir_from_keeps:
  "mkdir_from pre cs fs = (r, fs') \<Longrightarrow> lookup fs q \<noteq> None \<Longrightarrow> lookup fs' q = lookup fs q"
proof (induction cs arbitrary: pre fs)
  case Nil
  then show ?case by simp
next
  case (Cons c cs)
  show ?case
  proof (cases "lookup fs (pre @ [c])")
    case None
    with Cons.prems have rec: "mkdir_from (pre @ [c]) cs (AList.update (pre @ [c]) Dir fs) = (r, fs')"
      by simp
    from None Cons.prems have ne: "q \<noteq> pre @ [c]"
      by auto
    then have same: "lookup (AList.update (pre @ [c]) Dir fs) q = lookup fs q"
      by (simp add: lookup_update)
    with Cons.IH [OF rec] Cons.prems show ?thesis
      by simp
  next
    case (Some n)
    with Cons.prems Cons.IH show ?thesis
      by (cases n) (auto split: if_splits)
  qed
qed

lemma mkdir_from_other:
  "mkdir_from pre cs fs = (r, fs') \<Longrightarrow> \<not> prefix q (pre @ cs) \<Longrightarrow> lookup fs' q = lookup fs q"
proof (induction cs arbitrary: pre fs)
  case Nil
  then show ?case by simp
next
  case (Cons c cs)
  have np: "\<not> prefix q ((pre @ [c]) @ cs)"
    using Cons.prems by simp
  have ne: "q \<noteq> pre @ [c]"
    using Cons.prems by auto
  show ?case
  proof (cases "lookup fs (pre @ [c])")
    case None
    with Cons.prems have rec: "mkdir_from (pre @ [c]) cs (AList.update (pre @ [c]) Dir fs) = (r, fs')"
      by simp
    from Cons.IH [OF rec np] ne show ?thesis
      by (simp add: lookup_update)
  next
    case (Some n)
    with Cons.prems Cons.IH [OF _ np] show ?thesis
      by (cases n) (auto split: if_splits)
  qed
qed

lemma mkdir_from_dir:
  "mkdir_from pre cs fs = (None, fs') \<Longrightarrow> cs \<noteq> [] \<Longrightarrow> lookup fs' (pre @ cs) = Some Dir"
proof (induction cs arbitrary: pre fs)
  case Nil
  then show ?case by simp
next
  case (Cons c cs)
  show ?case
  proof (cases "cs = []")
    case True
    with Cons.prems show ?thesis
      by (auto simp: lookup_update split: option.splits node.splits)
  next
    case False
    show ?thesis
    proof (cases "lookup fs (pre @ [c])")
      case None
      with Cons.prems
      have rec: "mkdir_from (pre @ [c]) cs (AList.update (pre @ [c]) Dir fs) = (None, fs')"
        by simp
      from Cons.IH [OF rec False] show ?thesis by simp
    next
      case (Some n)
      with Cons.prems False have rec: "mkdir_from (pre @ [c]) cs fs = (None, fs')"
        by (cases n) auto
      from Cons.IH [OF rec False] show ?thesis by simp
    qed
  qed
qed

lemma seq_None:
  "seq f g fs = (None, fs') \<Longrightarrow> \<exists>fs1. f fs = (None, fs1) \<and> g fs1 = (None, fs')"
  by (auto simp: seq_def split: prod.splits option.splits)

lemma keeps_seq: "keeps f \<Longrightarrow> keeps g \<Longrightarrow> keeps (seq f g)"
  unfolding keeps_def seq_def
  by (auto split: prod.splits option.splits) (metis snd_conv)+

lemma keeps_mkdir_parents: "keeps (mkdir_parents p)"
  unfolding keeps_def mkdir_parents_def
  by (metis mkdir_from_keeps prod.collapse)

lemma keeps_write_if_absent:
  "keeps (\<lambda>fs. if \<not> path_exists fs p
               then seq (mkdir_parents (butlast p)) (write_file p t) fs
               else (None, fs))"
  unfolding keeps_def
proof (intro allI impI)
  fix fs q
  assume q: "lookup fs q \<noteq> None"
  show "lookup (snd (if \<not> path_exists fs p
                     then seq (mkdir_parents (butlast p)) (write_file p t) fs
                     else (None, fs))) q = lookup fs q"
  proof (cases "path_exists fs p")
    case True
    then show ?thesis by simp
  next
    case False
    then have ne: "q \<noteq> p"
      using q by (auto simp: path_exists_def)
    obtain r1 fs1 where m: "mkdir_parents (butlast p) fs = (r1, fs1)"
      by (cases "mkdir_parents (butlast p) fs")
    have k1: "lookup fs1 q = lookup fs q"
      using m q mkdir_from_keeps unfolding mkdir_parents_def by blast
    have k2: "lookup (snd (write_file p t fs1)) q = lookup fs1 q"
      using ne by (simp add: write_file_def lookup_update)
    show ?thesis
      using False m k1 k2 by (cases r1) (simp_all add: seq_def)
  qed
qed

lemma dnf_setup_keeps: "keeps (dnf_setup ctx repos filelists)"
  unfolding dnf_setup_def
  by (intro keeps_seq keeps_mkdir_parents keeps_write_if_absent)

lemma write_if_absent_exists:
  assumes "(if \<not> path_exists fs p
            then seq (mkdir_parents (butlast p)) (write_file p t) fs
            else (None, fs)) = (None, fs')"
    and "p \<noteq> []"
  shows "lookup fs' p \<noteq> None"
proof (cases "path_exists fs p")
  case True
  with assms have "fs' = fs" by simp
  with True assms(2) show ?thesis by (simp add: path_exists_def)
next
  case False
  with assms obtain fs1 where "write_file p t fs1 = (None, fs')"
    using seq_None by fastforce
  then show ?thesis
    by (auto simp: write_file_def lookup_update split: if_splits)
qed

lemma write_if_absent_writes:
  assumes "(if \<not> path_exists fs p
            then seq (mkdir_parents (butlast p)) (write_file p t) fs
            else (None, fs)) = (None, fs')"
    and "\<not> path_exists fs p"
  shows "lookup fs' p = Some (File t)"
proof -
  from assms obtain fs1 where "write_file p t fs1 = (None, fs')"
    using seq_None by fastforce
  then show ?thesis
    by (auto simp: write_file_def lookup_update split: if_splits)
qed

lemma write_if_absent_other:
  assumes "(if \<not> path_exists fs p
            then seq (mkdir_parents (butlast p)) (write_file p t) fs
            else (None, fs)) = (None, fs')"
    and "q \<noteq> p" and "\<not> prefix q (butlast p)"
  shows "lookup fs' q = lookup fs q"
proof (cases "path_exists fs p")
  case True
  with assms show ?thesis by simp
next
  case False
  with assms obtain fs1 where m: "mkdir_parents (butlast p) fs = (None, fs1)"
    and w: "write_file p t fs1 = (None, fs')"
    using seq_None by fastforce
  have "lookup fs1 q = lookup fs q"
    using m assms(3) mkdir_from_other [of "[]" "butlast p" fs None fs1 q]
    by (simp add: mkdir_parents_def)
  moreover have "lookup fs' q = lookup fs1 q"
    using w assms(2) by (auto simp: write_file_def lookup_update split: if_splits)
  ultimately show ?thesis by simp
qed

lemma dnf_setup_steps:
  assumes "dnf_setup ctx repos filelists fs = (None, fs')"
  obtains fs1 fs2 fs3 where
    "mkdir_parents (pkgmngr ctx @ [''etc'', ''dnf'', ''vars'']) fs = (None, fs1)"
    "mkdir_parents (pkgmngr ctx @ [''etc'', ''yum.repos.d'']) fs1 = (None, fs2)"
    "(if \<not> path_exists fs2 (dnf_conf ctx)
      then seq (mkdir_parents (butlast (dnf_conf ctx)))
             (write_file (dnf_conf ctx)
                (if endswith (executable (config ctx)) ''dnf5'' \<and> filelists
                 then ''[main]\<newline>optional_metadata_types=filelists\<newline>''
                 else [])) fs2
      else (None, fs2)) = (None, fs3)"
    "(if \<not> path_exists fs3 (mkosi_repo ctx)
      then seq (mkdir_parents (butlast (mkosi_repo ctx)))
             (write_file (mkosi_repo ctx) (write_repos repos [])) fs3
      else (None, fs3)) = (None, fs')"
proof -
  from assms obtain fs1 where s1:
    "mkdir_parents (pkgmngr ctx @ [''etc'', ''dnf'', ''vars'']) fs = (None, fs1)"
    and r1: "seq (mkdir_parents (pkgmngr ctx @ [''etc'', ''yum.repos.d'']))
    (seq (\<lambda>fs. if \<not> path_exists fs (dnf_conf ctx)
               then seq (mkdir_parents (butlast (dnf_conf ctx)))
                      (write_file (dnf_conf ctx)
                         (if endswith (executable (config ctx)) ''dnf5'' \<and> filelists
                          then ''[main]\<newline>optional_metadata_types=filelists\<newline>''
                          else [])) fs
               else (None, fs))
         (\<lambda>fs. if \<not> path_exists fs (mkosi_repo ctx)
               then seq (mkdir_parents (butlast (mkosi_repo ctx)))
                      (write_file (mkosi_repo ctx) (write_repos repos [])) fs
               else (None, fs))) fs1 = (None, fs')"
    unfolding dnf_setup_def by (blast dest: seq_None)
  from r1 obtain fs2 where s2:
    "mkdir_parents (pkgmngr ctx @ [''etc'', ''yum.repos.d'']) fs1 = (None, fs2)"
    and r2: "seq (\<lambda>fs. if \<not> path_exists fs (dnf_conf ctx)
               then seq (mkdir_parents (butlast (dnf_conf ctx)))
                      (write_file (dnf_conf ctx)
                         (if endswith (executable (config ctx)) ''dnf5'' \<and> filelists
                          then ''[main]\<newline>optional_metadata_types=filelists\<newline>''
                          else [])) fs
               else (None, fs))
         (\<lambda>fs. if \<not> path_exists fs (mkosi_repo ctx)
               then seq (mkdir_parents (butlast (mkosi_repo ctx)))
                      (write_file (mkosi_repo ctx) (write_repos repos [])) fs
               else (None, fs)) fs2 = (None, fs')"
    by (blast dest: seq_None)
  from seq_None [OF r2] obtain fs3 where
    "(if \<not> path_exists fs2 (dnf_conf ctx)
      then seq (mkdir_parents (butlast (dnf_conf ctx)))
             (write_file (dnf_conf ctx)
                (if endswith (executable (config ctx)) ''dnf5'' \<and> filelists
                 then ''[main]\<newline>optional_metadata_types=filelists\<newline>''
                 else [])) fs2
      else (None, fs2)) = (None, fs3)"
    "(if \<not> path_exists fs3 (mkosi_repo ctx)
      then seq (mkdir_parents (butlast (mkosi_repo ctx)))
             (write_file (mkosi_repo ctx) (write_repos repos [])) fs3
      else (None, fs3)) = (None, fs')"
    by blast
  with s1 s2 show ?thesis
    using that by blast
qed

section \<open>The repository configurator\<close>

lemma dnf_setup_files_exist:
  assumes "dnf_setup ctx repos filelists fs = (None, fs')"
  shows "lookup fs' (dnf_conf ctx) \<noteq> None \<and> lookup fs' (mkosi_repo ctx) \<noteq> None"
proof -
  from assms obtain fs1 fs2 fs3 where
    conf: "(if \<not> path_exists fs2 (dnf_conf ctx)
      then seq (mkdir_parents (butlast (dnf_conf ctx)))
             (write_file (dnf_conf ctx)
                (if endswith (executable (config ctx)) ''dnf5'' \<and> filelists
                 then ''[main]\<newline>optional_metadata_types=filelists\<newline>''
                 else [])) fs2
      else (None, fs2)) = (None, fs3)"
    and repo: "(if \<not> path_exists fs3 (mkosi_repo ctx)
      then seq (mkdir_parents (butlast (mkosi_repo ctx)))
             (write_file (mkosi_repo ctx) (write_repos repos [])) fs3
      else (None, fs3)) = (None, fs')"
    by (rule dnf_setup_steps)
  have c3: "lookup fs3 (dnf_conf ctx) \<noteq> None"
    using write_if_absent_exists [OF conf] by (simp add: dnf_conf_def)
  have "lookup (snd (if \<not> path_exists fs3 (mkosi_repo ctx)
      then seq (mkdir_parents (butlast (mkosi_repo ctx)))
             (write_file (mkosi_repo ctx) (write_repos repos [])) fs3
      else (None, fs3))) (dnf_conf ctx) = lookup fs3 (dnf_conf ctx)"
    using keeps_write_if_absent [of "mkosi_repo ctx" "write_repos repos []"] c3
    unfolding keeps_def by blast
  then have "lookup fs' (dnf_conf ctx) = lookup fs3 (dnf_conf ctx)"
    using repo by simp
  moreover have "lookup fs' (mkosi_repo ctx) \<noteq> None"
    using write_if_absent_exists [OF repo] by (simp add: mkosi_repo_def)
  ultimately show ?thesis
    using c3 by simp
qed

lemma dnf_setup_repo_content:
  assumes "dnf_setup ctx repos filelists fs = (None, fs')"
    and "lookup fs (mkosi_repo ctx) = None"
  shows "lookup fs' (mkosi_repo ctx) = Some (File (write_repos repos []))"
proof -
  from assms(1) obtain fs1 fs2 fs3 where
    m1: "mkdir_parents (pkgmngr ctx @ [''etc'', ''dnf'', ''vars'']) fs = (None, fs1)"
    and m2: "mkdir_parents (pkgmngr ctx @ [''etc'', ''yum.repos.d'']) fs1 = (None, fs2)"
    and conf: "(if \<not> path_exists fs2 (dnf_conf ctx)
      then seq (mkdir_parents (butlast (dnf_conf ctx)))
             (write_file (dnf_conf ctx)
                (if endswith (executable (config ctx)) ''dnf5'' \<and> filelists
                 then ''[main]\<newline>optional_metadata_types=filelists\<newline>''
                 else [])) fs2
      else (None, fs2)) = (None, fs3)"
    and repo: "(if \<not> path_exists fs3 (mkosi_repo ctx)
      then seq (mkdir_parents (butlast (mkosi_repo ctx)))
             (write_file (mkosi_repo ctx) (write_repos repos [])) fs3
      else (None, fs3)) = (None, fs')"
    by (rule dnf_setup_steps)
  have "lookup fs1 (mkosi_repo ctx) = lookup fs (mkosi_repo ctx)"
    using mkdir_from_other [of "[]" _ fs None fs1 "mkosi_repo ctx"] m1
    by (simp add: mkdir_parents_def mkosi_repo_def)
  moreover have "lookup fs2 (mkosi_repo ctx) = lookup fs1 (mkosi_repo ctx)"
    using mkdir_from_other [of "[]" _ fs1 None fs2 "mkosi_repo ctx"] m2
    by (simp add: mkdir_parents_def mkosi_repo_def)
  moreover have "lookup fs3 (mkosi_repo ctx) = lookup fs2 (mkosi_repo ctx)"
    using write_if_absent_other [OF conf, of "mkosi_repo ctx"]
    by (simp add: mkosi_repo_def dnf_conf_def butlast_append)
  ultimately have "\<not> path_exists fs3 (mkosi_repo ctx)"
    using assms(2) by (simp add: path_exists_def mkosi_repo_def)
  then show ?thesis
    using write_if_absent_writes [OF repo] by simp
qed

lemma mkdir_from_chain:
  "mkdir_from pre cs fs = (None, fs') \<Longrightarrow> 0 < k \<Longrightarrow> k \<le> length cs \<Longrightarrow>
   lookup fs' (pre @ take k cs) = Some Dir"
proof (induction cs arbitrary: pre fs k)
  case Nil
  then show ?case by simp
next
  case (Cons c cs)
  obtain fsm where
    rec: "mkdir_from (pre @ [c]) cs fsm = (None, fs')"
    and here: "lookup fsm (pre @ [c]) = Some Dir"
  proof (cases "lookup fs (pre @ [c])")
    case None
    with Cons.prems(1) that [of "AList.update (pre @ [c]) Dir fs"] show ?thesis
      by (simp add: lookup_update)
  next
    case (Some n)
    with Cons.prems(1) that [of fs] show ?thesis
      by (cases n) auto
  qed
  show ?case
  proof (cases k)
    case 0
    with Cons.prems show ?thesis by simp
  next
    case (Suc j)
    show ?thesis
    proof (cases "j = 0")
      case True
      have "lookup fs' (pre @ [c]) = lookup fsm (pre @ [c])"
        using mkdir_from_keeps [OF rec] here by simp
      with here Suc True show ?thesis by simp
    next
      case False
      then have "lookup fs' ((pre @ [c]) @ take j cs) = Some Dir"
        using Cons.IH [OF rec, of j] Cons.prems Suc by simp
      with Suc show ?thesis by simp
    qed
  qed
qed

lemma mkdir_from_present:
  "(\<And>k. 0 < k \<Longrightarrow> k \<le> length cs \<Longrightarrow> lookup fs (pre @ take k cs) = Some Dir) \<Longrightarrow>
   mkdir_from pre cs fs = (None, fs)"
proof (induction cs arbitrary: pre)
  case Nil
  then show ?case by simp
next
  case (Cons c cs)
  have here: "lookup fs (pre @ [c]) = Some Dir"
    using Cons.prems [of 1] by simp
  have "lookup fs ((pre @ [c]) @ take k cs) = Some Dir" if "0 < k" "k \<le> length cs" for k
    using Cons.prems [of "Suc k"] that by simp
  then have "mkdir_from (pre @ [c]) cs fs = (None, fs)"
    by (rule Cons.IH)
  with here show ?case by simp
qed

lemma mkdir_parents_keeps:
  "mkdir_parents p fs = (r, fs') \<Longrightarrow> lookup fs q \<noteq> None \<Longrightarrow> lookup fs' q = lookup fs q"
  unfolding mkdir_parents_def by (rule mkdir_from_keeps)

lemma write_if_absent_keeps:
  assumes "(if \<not> path_exists fs p
            then seq (mkdir_parents (butlast p)) (write_file p t) fs
            else (None, fs)) = (r, fs')"
    and "lookup fs q \<noteq> None"
  shows "lookup fs' q = lookup fs q"
proof -
  have "lookup (snd (if \<not> path_exists fs p
                     then seq (mkdir_parents (butlast p)) (write_file p t) fs
                     else (None, fs))) q = lookup fs q"
    using keeps_write_if_absent [of p t] assms(2) unfolding keeps_def by blast
  then show ?thesis
    using assms(1) by simp
qed

text \<open>Once \<open>setup\<close> has returned, a call on the same build root returns and changes
  nothing.\<close>

lemma dnf_setup_again:
  assumes "dnf_setup ctx repos1 filelists1 fs = (None, fs')"
    and "pkgmngr ctx' = pkgmngr ctx"
  shows "dnf_setup ctx' repos2 filelists2 fs' = (None, fs')"
proof -
  from assms(1) obtain fs1 fs2 fs3 where
    m1: "mkdir_parents (pkgmngr ctx @ [''etc'', ''dnf'', ''vars'']) fs = (None, fs1)"
    and m2: "mkdir_parents (pkgmngr ctx @ [''etc'', ''yum.repos.d'']) fs1 = (None, fs2)"
    and conf: "(if \<not> path_exists fs2 (dnf_conf ctx)
      then seq (mkdir_parents (butlast (dnf_conf ctx)))
             (write_file (dnf_conf ctx)
                (if endswith (executable (config ctx)) ''dnf5'' \<and> filelists1
                 then ''[main]\<newline>optional_metadata_types=filelists\<newline>''
                 else [])) fs2
      else (None, fs2)) = (None, fs3)"
    and repo: "(if \<not> path_exists fs3 (mkosi_repo ctx)
      then seq (mkdir_parents (butlast (mkosi_repo ctx)))
             (write_file (mkosi_repo ctx) (write_repos repos1 [])) fs3
      else (None, fs3)) = (None, fs')"
    by (rule dnf_setup_steps)
  have k2: "lookup fs2 q = Some Dir" if "lookup fs1 q = Some Dir" for q
    using mkdir_parents_keeps [OF m2, of q] that by simp
  have k3: "lookup fs3 q = Some Dir" if "lookup fs2 q = Some Dir" for q
    using write_if_absent_keeps [OF conf, of q] that by simp
  have k4: "lookup fs' q = Some Dir" if "lookup fs3 q = Some Dir" for q
    using write_if_absent_keeps [OF repo, of q] that by simp
  have d1: "lookup fs' ([] @ take k (pkgmngr ctx @ [''etc'', ''dnf'', ''vars''])) = Some Dir"
    if "0 < k" "k \<le> length (pkgmngr ctx @ [''etc'', ''dnf'', ''vars''])" for k
  proof -
    have "lookup fs1 ([] @ take k (pkgmngr ctx @ [''etc'', ''dnf'', ''vars''])) = Some Dir"
      using m1 that unfolding mkdir_parents_def by (rule mkdir_from_chain)
    then show ?thesis
      by (intro k4 k3 k2)
  qed
  have d2: "lookup fs' ([] @ take k (pkgmngr ctx @ [''etc'', ''yum.repos.d''])) = Some Dir"
    if "0 < k" "k \<le> length (pkgmngr ctx @ [''etc'', ''yum.repos.d''])" for k
  proof -
    have "lookup fs2 ([] @ take k (pkgmngr ctx @ [''etc'', ''yum.repos.d''])) = Some Dir"
      using m2 that unfolding mkdir_parents_def by (rule mkdir_from_chain)
    then show ?thesis
      by (intro k4 k3)
  qed
  have n1: "mkdir_parents (pkgmngr ctx @ [''etc'', ''dnf'', ''vars'']) fs' = (None, fs')"
    unfolding mkdir_parents_def by (rule mkdir_from_present) (rule d1)
  have n2: "mkdir_parents (pkgmngr ctx @ [''etc'', ''yum.repos.d'']) fs' = (None, fs')"
    unfolding mkdir_parents_def by (rule mkdir_from_present) (rule d2)
  have ex: "path_exists fs' (dnf_conf ctx)" "path_exists fs' (mkosi_repo ctx)"
    using dnf_setup_files_exist [OF assms(1)] by (simp_all add: path_exists_def)
  have same: "dnf_conf ctx' = dnf_conf ctx" "mkosi_repo ctx' = mkosi_repo ctx"
    using assms(2) by (simp_all add: dnf_conf_def mkosi_repo_def)
  have n1': "mkdir_parents (pkgmngr ctx' @ [''etc'', ''dnf'', ''vars'']) fs' = (None, fs')"
    using n1 assms(2) by simp
  have n2': "mkdir_parents (pkgmngr ctx' @ [''etc'', ''yum.repos.d'']) fs' = (None, fs')"
    using n2 assms(2) by simp
  have ex': "path_exists fs' (dnf_conf ctx')" "path_exists fs' (mkosi_repo ctx')"
    using ex same by simp_all
  show ?thesis
    by (simp add: dnf_setup_def seq_def n1' n2' ex')
qed

text \<open>
  C1.  After a call of \<open>setup\<close> that returned, the main configuration file and the
  repository-list file exist, and a second call leaves both as they are, whatever its
  repositories, its filelists flag and its configuration, and whether or not it returns.
  On the same build root the second call returns and changes nothing at all.
\<close>

theorem setup_twice_keeps_files:
  assumes "dnf_setup ctx repos1 filelists1 fs = (None, fs1)"
  shows "lookup fs1 (dnf_conf ctx) \<noteq> None
         \<and> lookup fs1 (mkosi_repo ctx) \<noteq> None
         \<and> lookup (snd (dnf_setup ctx' repos2 filelists2 fs1)) (dnf_conf ctx)
             = lookup fs1 (dnf_conf ctx)
         \<and> lookup (snd (dnf_setup ctx' repos2 filelists2 fs1)) (mkosi_repo ctx)
             = lookup fs1 (mkosi_repo ctx)
         \<and> (pkgmngr ctx' = pkgmngr ctx
              \<longrightarrow> dnf_setup ctx' repos2 filelists2 fs1 = (None, fs1))"
proof -
  have ex: "lookup fs1 (dnf_conf ctx) \<noteq> None \<and> lookup fs1 (mkosi_repo ctx) \<noteq> None"
    using assms by (rule dnf_setup_files_exist)
  have "\<And>q. lookup fs1 q \<noteq> None \<Longrightarrow>
          lookup (snd (dnf_setup ctx' repos2 filelists2 fs1)) q = lookup fs1 q"
    using dnf_setup_keeps [of ctx' repos2 filelists2] unfolding keeps_def by blast
  moreover have "pkgmngr ctx' = pkgmngr ctx
                   \<longrightarrow> dnf_setup ctx' repos2 filelists2 fs1 = (None, fs1)"
    using dnf_setup_again [OF assms] by blast
  ultimately show ?thesis
    using ex by blast
qed

theorem setup_twice_keeps_files_witness:
  "fst (dnf_setup plain_context [base_repo] True []) = None
   \<and> lookup (snd (dnf_setup plain_context [] False
               (snd (dnf_setup plain_context [base_repo] True []))))
         (mkosi_repo plain_context)
       = lookup (snd (dnf_setup plain_context [base_repo] True [])) (mkosi_repo plain_context)
   \<and> lookup (snd (dnf_setup plain_context [base_repo] True [])) (mkosi_repo plain_context)
       \<noteq> None
   \<and> dnf_setup plain_context [] False (snd (dnf_setup plain_context [base_repo] True []))
       = (None, snd (dnf_setup plain_context [base_repo] True []))"
proof -
  have f: "fst (dnf_setup plain_context [base_repo] True []) = None"
    by code_simp
  then have h: "dnf_setup plain_context [base_repo] True []
                  = (None, snd (dnf_setup plain_context [base_repo] True []))"
    by (simp add: prod_eq_iff)
  show ?thesis
    using setup_twice_keeps_files [OF h, of plain_context "[]" False] f by simp
qed

text \<open>
  C4.  On a build root without a repository-list file, a call of \<open>setup\<close> with the single
  descriptor of the minimal scenario that returns leaves exactly the expected bytes in
  the repository-list file.
\<close>

theorem setup_minimal_repository:
  assumes "dnf_setup ctx [base_repo] filelists fs = (None, fs')"
    and "lookup fs (mkosi_repo ctx) = None"
  shows "lookup fs' (mkosi_repo ctx)
           = Some (File ''[base]\<newline>name=base\<newline>baseurl=file:///repo\<newline>gpgcheck=1\<newline>enabled=1\<newline>gpgkey=file:///key\<newline>\<newline>'')"
proof -
  have "write_repos [base_repo] []
          = ''[base]\<newline>name=base\<newline>baseurl=file:///repo\<newline>gpgcheck=1\<newline>enabled=1\<newline>gpgkey=file:///key\<newline>\<newline>''"
    by code_simp
  then show ?thesis
    using dnf_setup_repo_content [OF assms] by simp
qed

theorem setup_minimal_repository_witness:
  "fst (dnf_setup plain_context [base_repo] True []) = None
   \<and> lookup [] (mkosi_repo plain_context) = None
   \<and> lookup (snd (dnf_setup plain_context [base_repo] True [])) (mkosi_repo plain_context)
       = Some (File ''[base]\<newline>name=base\<newline>baseurl=file:///repo\<newline>gpgcheck=1\<newline>enabled=1\<newline>gpgkey=file:///key\<newline>\<newline>'')"
proof -
  have f: "fst (dnf_setup plain_context [base_repo] True []) = None"
    by code_simp
  then have h: "dnf_setup plain_context [base_repo] True []
                  = (None, snd (dnf_setup plain_context [base_repo] True []))"
    by (simp add: prod_eq_iff)
  have e: "lookup [] (mkosi_repo plain_context) = None"
    by (simp add: lookup_def)
  show ?thesis
    using setup_minimal_repository [OF h e] f e by simp
qed

text \<open>
  C10.  On a build root without a repository-list file, a call of \<open>setup\<close> with no
  repositories that returns leaves an empty repository-list file; any later call of
  \<open>setup\<close> on the same build root returns and changes nothing, so the file is still
  empty, whatever the repositories of that call.
\<close>

theorem setup_empty_repositories_sticks:
  assumes "dnf_setup ctx [] filelists fs = (None, fs1)"
    and "lookup fs (mkosi_repo ctx) = None"
    and "pkgmngr ctx' = pkgmngr ctx"
  shows "lookup fs1 (mkosi_repo ctx) = Some (File [])
         \<and> dnf_setup ctx' repos filelists' fs1 = (None, fs1)
         \<and> lookup (snd (dnf_setup ctx' repos filelists' fs1)) (mkosi_repo ctx') = Some (File [])"
proof -
  have again: "dnf_setup ctx' repos filelists' fs1 = (None, fs1)"
    using assms(1,3) by (rule dnf_setup_again)
  have first: "lookup fs1 (mkosi_repo ctx) = Some (File [])"
    using dnf_setup_repo_content [OF assms(1,2)] by simp
  have same: "mkosi_repo ctx' = mkosi_repo ctx"
    using assms(3) by (simp add: mkosi_repo_def)
  have "lookup (snd (dnf_setup ctx' repos filelists' fs1)) (mkosi_repo ctx)
          = lookup fs1 (mkosi_repo ctx)"
    using dnf_setup_keeps [of ctx' repos filelists'] first unfolding keeps_def by auto
  with first same again show ?thesis by simp
qed

theorem setup_empty_repositories_sticks_witness:
  "fst (dnf_setup plain_context [] True []) = None
   \<and> lookup [] (mkosi_repo plain_context) = None
   \<and> lookup (snd (dnf_setup plain_context [] True [])) (mkosi_repo plain_context)
       = Some (File [])
   \<and> lookup (snd (dnf_setup plain_context [base_repo] True
                    (snd (dnf_setup plain_context [] True []))))
         (mkosi_repo plain_context) = Some (File [])"
proof -
  have f: "fst (dnf_setup plain_context [] True []) = None"
    by code_simp
  then have h: "dnf_setup plain_context [] True []
                  = (None, snd (dnf_setup plain_context [] True []))"
    by (simp add: prod_eq_iff)
  have e: "lookup [] (mkosi_repo plain_context) = None"
    by (simp add: lookup_def)
  show ?thesis
    using setup_empty_repositories_sticks [OF h e refl, of "[base_repo]" True] f e by simp
qed

text \<open>
  C3 (as amended).  Let \<open>setup\<close> return on a build root without a repository-list file.
  The file then holds the stanzas of the descriptors, one after the other.  For a plain
  descriptor among them whose gpg URLs are \<open>u # us\<close> (so \<open>N = 1 + length us\<close>), the
  gpgkey-family lines of its stanza are exactly \<open>N\<close>: \<open>gpgkey=\<close> followed by \<open>u\<close>, then for
  each later URL seven blanks followed by that URL.
\<close>

theorem setup_gpgkey_lines:
  assumes "dnf_setup ctx repos filelists fs = (None, fs')"
    and "lookup fs (mkosi_repo ctx) = None"
    and "repo \<in> set repos"
    and "plain_descriptor repo"
    and "gpgurls repo = u # us"
  shows "lookup fs' (mkosi_repo ctx)
           = Some (File (concat (map (\<lambda>repo. write_repo repo []) repos)))
         \<and> filter is_gpgkey_line (split_on CHR 0x0A (write_repo repo []))
             = (''gpgkey='' @ u) # map (\<lambda>v. replicate 7 CHR '' '' @ v) us
         \<and> length (filter is_gpgkey_line (split_on CHR 0x0A (write_repo repo [])))
             = length (gpgurls repo)"
proof -
  have content: "lookup fs' (mkosi_repo ctx)
                = Some (File (concat (map (\<lambda>repo. write_repo repo []) repos)))"
    using dnf_setup_repo_content [OF assms(1,2)] write_repos_stanzas [of repos "[]"] by simp
  have s: "single_line (repo_id repo)" "single_line (url repo)"
    using assms(4) by (simp_all add: plain_descriptor_def)
  have "split_on CHR 0x0A (write_repo repo []) = stanza_lines repo @ [[]]"
    using write_repo_lines [OF s, of "[]"] stanza_lines_single [OF assms(4)]
      split_on_terminated_lines [of "stanza_lines repo" "CHR 0x0A"]
    by simp
  then have "filter is_gpgkey_line (split_on CHR 0x0A (write_repo repo []))
               = expected_gpgkey_lines (gpgurls repo)"
    using stanza_lines_gpgkey [OF assms(4)]
    by (simp add: is_gpgkey_line_def startswith_def)
  then have lines: "filter is_gpgkey_line (split_on CHR 0x0A (write_repo repo []))
               = (''gpgkey='' @ u) # map (\<lambda>v. replicate 7 CHR '' '' @ v) us"
    using assms(5) by simp
  then have "length (filter is_gpgkey_line (split_on CHR 0x0A (write_repo repo [])))
               = length (gpgurls repo)"
    using assms(5) by simp
  with content lines show ?thesis by blast
qed

theorem setup_gpgkey_lines_witness:
  "fst (dnf_setup plain_context [base_repo\<lparr>gpgurls := [''file:///a'', ''file:///b'']\<rparr>] True [])
     = None
   \<and> plain_descriptor (base_repo\<lparr>gpgurls := [''file:///a'', ''file:///b'']\<rparr>)
   \<and> lookup (snd (dnf_setup plain_context
                    [base_repo\<lparr>gpgurls := [''file:///a'', ''file:///b'']\<rparr>] True []))
         (mkosi_repo plain_context)
       = Some (File (write_repo (base_repo\<lparr>gpgurls := [''file:///a'', ''file:///b'']\<rparr>) []))
   \<and> filter is_gpgkey_line
         (split_on CHR 0x0A
            (write_repo (base_repo\<lparr>gpgurls := [''file:///a'', ''file:///b'']\<rparr>) []))
       = [''gpgkey=file:///a'', ''       file:///b'']"
proof -
  have f: "fst (dnf_setup plain_context
                  [base_repo\<lparr>gpgurls := [''file:///a'', ''file:///b'']\<rparr>] True []) = None"
    by code_simp
  then have h: "dnf_setup plain_context
                  [base_repo\<lparr>gpgurls := [''file:///a'', ''file:///b'']\<rparr>] True []
                = (None, snd (dnf_setup plain_context
                     [base_repo\<lparr>gpgurls := [''file:///a'', ''file:///b'']\<rparr>] True []))"
    by (simp add: prod_eq_iff)
  have e: "lookup [] (mkosi_repo plain_context) = None"
    by (simp add: lookup_def)
  have m: "base_repo\<lparr>gpgurls := [''file:///a'', ''file:///b'']\<rparr>
             \<in> set [base_repo\<lparr>gpgurls := [''file:///a'', ''file:///b'']\<rparr>]"
    by simp
  have p: "plain_descriptor (base_repo\<lparr>gpgurls := [''file:///a'', ''file:///b'']\<rparr>)"
    by code_simp
  have g: "gpgurls (base_repo\<lparr>gpgurls := [''file:///a'', ''file:///b'']\<rparr>)
             = ''file:///a'' # [''file:///b'']"
    by simp
  show ?thesis
    using setup_gpgkey_lines [OF h e m p g] f p by (simp add: replicate_7)
qed

text \<open>
  C3 (as stated) fails for a descriptor whose url line is itself a gpgkey-family line:
  with one gpg URL the stanza that \<open>setup\<close> writes has two lines that begin with
  \<open>gpgkey=\<close>.
\<close>

theorem setup_gpgkey_url_counterexample:
  "fst (dnf_setup plain_context [base_repo\<lparr>url := ''gpgkey=file:///other''\<rparr>] True []) = None
   \<and> lookup (snd (dnf_setup plain_context [base_repo\<lparr>url := ''gpgkey=file:///other''\<rparr>]
                    True []))
         (mkosi_repo plain_context)
       = Some (File ''[base]\<newline>name=base\<newline>gpgkey=file:///other\<newline>gpgcheck=1\<newline>enabled=1\<newline>gpgkey=file:///key\<newline>\<newline>'')
   \<and> filter is_gpgkey_line
         (split_on CHR 0x0A
            ''[base]\<newline>name=base\<newline>gpgkey=file:///other\<newline>gpgcheck=1\<newline>enabled=1\<newline>gpgkey=file:///key\<newline>\<newline>'')
       = [''gpgkey=file:///other'', ''gpgkey=file:///key'']
   \<and> length (gpgurls (base_repo\<lparr>url := ''gpgkey=file:///other''\<rparr>)) = 1"
  by code_simp

section \<open>The command builder\<close>

text \<open>
  The command vector starts with \<open>env\<close>, \<open>HOME=/\<close> and the binary name; the tokens
  after these are the flags.  When the cache policy is always, \<open>--cacheonly\<close> is among
  the flags and \<open>--setopt=metadata_expire=never\<close> is not; for every other policy
  \<open>--setopt=metadata_expire=never\<close> is among the flags and \<open>--cacheonly\<close> is not, and
  \<open>--setopt=cacheonly=metadata\<close> is among them exactly when the resolved binary is
  \<open>dnf5\<close>.
\<close>

lemma cmd_cache_flags:
  "take 3 (cmd ctx) = [''env'', ''HOME=/'', executable (config ctx)]
   \<and> (if cacheonly (config ctx) = Cacheonly_always
      then ''--cacheonly'' \<in> set (drop 3 (cmd ctx))
           \<and> ''--setopt=metadata_expire=never'' \<notin> set (drop 3 (cmd ctx))
      else ''--setopt=metadata_expire=never'' \<in> set (drop 3 (cmd ctx))
           \<and> ''--cacheonly'' \<notin> set (drop 3 (cmd ctx))
           \<and> (''--setopt=cacheonly=metadata'' \<in> set (drop 3 (cmd ctx))
                \<longleftrightarrow> executable (config ctx) = ''dnf5''))"
  by (auto simp add: cmd_def Let_def subdir_def)

text \<open>
  C5.  For a binary whose name ends in \<open>dnf5\<close> without being \<open>dnf5\<close>, and a cache policy
  other than always, \<open>cmd\<close> writes the next-gen spellings and the never-expire flag but
  not \<open>--setopt=cacheonly=metadata\<close>: the test for that flag compares the name with
  \<open>dnf5\<close>, the tests around it use \<open>endswith("dnf5")\<close>.  For the binary \<open>dnf5\<close> itself the
  flag is there.
\<close>

theorem cmd_suffix_dnf5_without_cacheonly_metadata:
  "endswith (executable (plain_config\<lparr>environment := [''MKOSI_DNF'' \<mapsto> ''/opt/bin/mydnf5'']\<rparr>))
     ''dnf5''
   \<and> cacheonly (plain_config\<lparr>environment := [''MKOSI_DNF'' \<mapsto> ''/opt/bin/mydnf5'']\<rparr>)
       \<noteq> Cacheonly_always
   \<and> ''--use-host-config''
       \<in> set (cmd (plain_context\<lparr>config :=
                    plain_config\<lparr>environment := [''MKOSI_DNF'' \<mapsto> ''/opt/bin/mydnf5'']\<rparr>\<rparr>))
   \<and> ''--setopt=metadata_expire=never''
       \<in> set (cmd (plain_context\<lparr>config :=
                    plain_config\<lparr>environment := [''MKOSI_DNF'' \<mapsto> ''/opt/bin/mydnf5'']\<rparr>\<rparr>))
   \<and> ''--setopt=cacheonly=metadata''
       \<notin> set (cmd (plain_context\<lparr>config :=
                    plain_config\<lparr>environment := [''MKOSI_DNF'' \<mapsto> ''/opt/bin/mydnf5'']\<rparr>\<rparr>))
   \<and> ''--setopt=cacheonly=metadata''
       \<in> set (cmd (plain_context\<lparr>config :=
                    plain_config\<lparr>find_binary := [''dnf5'' \<mapsto> ''/usr/bin/dnf5'']\<rparr>\<rparr>))"
  by (simp add: cmd_def Let_def subdir_def executable_def plain_context_def plain_config_def
      path_name_def path_parts_def endswith_def)

section \<open>The sandboxed invoker\<close>

lemma unlink_logs_files:
  assumes "distinct ps"
    and "\<forall>p \<in> set ps. is_log_name (last p) \<longrightarrow> (\<exists>t. lookup fs p = Some (File t))"
  shows "\<exists>fs'. unlink_logs ps fs = (None, fs')
           \<and> (\<forall>q. lookup fs' q
                  = (if q \<in> set ps \<and> is_log_name (last q) then None else lookup fs q))"
  using assms
proof (induction ps arbitrary: fs)
  case Nil
  then show ?case by simp
next
  case (Cons p ps)
  show ?case
  proof (cases "is_log_name (last p)")
    case False
    from Cons.prems have "distinct ps"
      and "\<forall>p \<in> set ps. is_log_name (last p) \<longrightarrow> (\<exists>t. lookup fs p = Some (File t))"
      by simp_all
    from Cons.IH [OF this] obtain fs' where
      "unlink_logs ps fs = (None, fs')"
      "\<forall>q. lookup fs' q = (if q \<in> set ps \<and> is_log_name (last q) then None else lookup fs q)"
      by blast
    with False show ?thesis by auto
  next
    case True
    with Cons.prems obtain t where isfile: "lookup fs p = Some (File t)"
      by auto
    have d: "distinct ps" and notin: "p \<notin> set ps"
      using Cons.prems by simp_all
    have "\<forall>p' \<in> set ps. is_log_name (last p') \<longrightarrow>
            (\<exists>t. lookup (AList.delete p fs) p' = Some (File t))"
      using Cons.prems notin by (auto simp: lookup_delete)
    from Cons.IH [OF d this] obtain fs' where
      rec: "unlink_logs ps (AList.delete p fs) = (None, fs')"
      and look: "\<forall>q. lookup fs' q
                   = (if q \<in> set ps \<and> is_log_name (last q) then None
                      else lookup (AList.delete p fs) q)"
      by blast
    have "unlink_logs (p # ps) fs = (None, fs')"
      using True isfile rec by (simp add: unlink_def)
    moreover have "\<forall>q. lookup fs' q
                   = (if q \<in> set (p # ps) \<and> is_log_name (last q) then None else lookup fs q)"
      using look True by (auto simp: lookup_delete)
    ultimately show ?thesis by blast
  qed
qed

lemma iterdir_entries:
  assumes "is_dir fs d"
  shows "\<exists>ps. iterdir d fs = Inr ps \<and> distinct ps
           \<and> set ps = {p. p \<noteq> [] \<and> butlast p = d \<and> lookup fs p \<noteq> None}"
proof -
  have "lookup fs p \<noteq> None \<longleftrightarrow> p \<in> fst ` set fs" for p
    by (simp add: lookup_def map_of_eq_None_iff)
  then show ?thesis
    using assms by (auto simp: iterdir_def)
qed

lemma remove_logs_absent:
  "\<not> path_exists fs (root ctx @ [''var'', ''log'']) \<Longrightarrow> remove_logs ctx fs = (None, fs)"
  by (simp add: remove_logs_def)

lemma remove_logs_files:
  assumes "is_dir fs (root ctx @ [''var'', ''log''])"
    and "\<forall>p. p \<noteq> [] \<and> butlast p = root ctx @ [''var'', ''log''] \<and> is_log_name (last p)
              \<longrightarrow> lookup fs p \<noteq> Some Dir"
  shows "\<exists>fs'. remove_logs ctx fs = (None, fs')
           \<and> (\<forall>q. lookup fs' q
                  = (if q \<noteq> [] \<and> butlast q = root ctx @ [''var'', ''log'']
                        \<and> is_log_name (last q)
                     then None else lookup fs q))"
proof -
  from iterdir_entries [OF assms(1)] obtain ps where
    it: "iterdir (root ctx @ [''var'', ''log'']) fs = Inr ps"
    and d: "distinct ps"
    and s: "set ps = {p. p \<noteq> [] \<and> butlast p = root ctx @ [''var'', ''log'']
                        \<and> lookup fs p \<noteq> None}"
    by blast
  have "\<forall>p \<in> set ps. is_log_name (last p) \<longrightarrow> (\<exists>t. lookup fs p = Some (File t))"
  proof (intro ballI impI)
    fix p
    assume p: "p \<in> set ps" and l: "is_log_name (last p)"
    then have "lookup fs p \<noteq> None" and "lookup fs p \<noteq> Some Dir"
      using s assms(2) by auto
    then show "\<exists>t. lookup fs p = Some (File t)"
      by (cases "lookup fs p") (auto intro: node.exhaust)
  qed
  from unlink_logs_files [OF d this] obtain fs' where
    u: "unlink_logs ps fs = (None, fs')"
    and look: "\<forall>q. lookup fs' q
                 = (if q \<in> set ps \<and> is_log_name (last q) then None else lookup fs q)"
    by blast
  have ex: "path_exists fs (root ctx @ [''var'', ''log''])"
    using assms(1) by (auto simp: is_dir_def path_exists_def)
  have "remove_logs ctx fs = (None, fs')"
    using ex it u by (simp add: remove_logs_def)
  moreover have "\<forall>q. lookup fs' q
                  = (if q \<noteq> [] \<and> butlast q = root ctx @ [''var'', ''log'']
                        \<and> is_log_name (last q)
                     then None else lookup fs q)"
    using look s by auto
  ultimately show ?thesis by blast
qed

text \<open>
  C6 (as amended).  Let the sandboxed execution end with any outcome (a returned
  process, or an exception such as the one for a non-zero exit) and leave the file
  system \<open>fs1\<close>.  If the log directory does not exist in \<open>fs1\<close>, \<open>invoke\<close> ends with that
  outcome and \<open>fs1\<close>.  If it is a directory and none of its direct entries whose name
  starts with \<open>dnf\<close>, \<open>hawkey\<close> or \<open>yum\<close> is a directory, \<open>invoke\<close> ends with that outcome,
  all these entries are gone and every other path is as in \<open>fs1\<close>.
\<close>

theorem invoke_removes_log_files:
  assumes "run (cmd ctx @ operation # arguments) fs = (outcome, fs1)"
  shows "(\<not> path_exists fs1 (root ctx @ [''var'', ''log''])
            \<longrightarrow> invoke run ctx operation arguments fs = (outcome, fs1))
         \<and> (is_dir fs1 (root ctx @ [''var'', ''log''])
              \<and> (\<forall>p. p \<noteq> [] \<and> butlast p = root ctx @ [''var'', ''log'']
                       \<and> is_log_name (last p) \<longrightarrow> lookup fs1 p \<noteq> Some Dir)
            \<longrightarrow> (\<exists>fs2. invoke run ctx operation arguments fs = (outcome, fs2)
                   \<and> (\<forall>q. lookup fs2 q
                          = (if q \<noteq> [] \<and> butlast q = root ctx @ [''var'', ''log'']
                                \<and> is_log_name (last q)
                             then None else lookup fs1 q))))"
proof (intro conjI impI)
  assume "\<not> path_exists fs1 (root ctx @ [''var'', ''log''])"
  then have "remove_logs ctx fs1 = (None, fs1)"
    by (rule remove_logs_absent)
  then show "invoke run ctx operation arguments fs = (outcome, fs1)"
    using assms by (simp add: invoke_def)
next
  assume a: "is_dir fs1 (root ctx @ [''var'', ''log''])
              \<and> (\<forall>p. p \<noteq> [] \<and> butlast p = root ctx @ [''var'', ''log'']
                       \<and> is_log_name (last p) \<longrightarrow> lookup fs1 p \<noteq> Some Dir)"
  then obtain fs2 where
    r: "remove_logs ctx fs1 = (None, fs2)"
    and look: "\<forall>q. lookup fs2 q
                 = (if q \<noteq> [] \<and> butlast q = root ctx @ [''var'', ''log'']
                       \<and> is_log_name (last q)
                    then None else lookup fs1 q)"
    using remove_logs_files [of fs1 ctx] by blast
  have "invoke run ctx operation arguments fs = (outcome, fs2)"
    using assms r by (simp add: invoke_def)
  with look show "\<exists>fs2. invoke run ctx operation arguments fs = (outcome, fs2)
                   \<and> (\<forall>q. lookup fs2 q
                          = (if q \<noteq> [] \<and> butlast q = root ctx @ [''var'', ''log'']
                                \<and> is_log_name (last q)
                             then None else lookup fs1 q))"
    by blast
qed

theorem invoke_removes_log_files_witness:
  "run_failing (cmd plain_context @ ''install'' # [''bash'']) log_files_fs
     = (Inl (CalledProcessError 1), log_files_fs)
   \<and> (\<exists>fs2. invoke run_failing plain_context ''install'' [''bash''] log_files_fs
               = (Inl (CalledProcessError 1), fs2)
          \<and> lookup fs2 [''work'', ''root'', ''var'', ''log'', ''dnf5.log''] = None
          \<and> lookup fs2 [''work'', ''root'', ''var'', ''log'', ''hawkey.log''] = None
          \<and> lookup fs2 [''work'', ''root'', ''var'', ''log'', ''lastlog''] = Some (File ''b''))"
proof -
  have h: "run_failing (cmd plain_context @ ''install'' # [''bash'']) log_files_fs
             = (Inl (CalledProcessError 1), log_files_fs)"
    by (simp add: run_failing_def)
  have d: "is_dir log_files_fs (root plain_context @ [''var'', ''log''])"
    by (simp add: is_dir_def lookup_def log_files_fs_def plain_context_def)
  have nd: "\<forall>p. p \<noteq> [] \<and> butlast p = root plain_context @ [''var'', ''log'']
                  \<and> is_log_name (last p) \<longrightarrow> lookup log_files_fs p \<noteq> Some Dir"
    by (auto simp: lookup_def log_files_fs_def plain_context_def split: if_splits)
  have "\<exists>fs2. invoke run_failing plain_context ''install'' [''bash''] log_files_fs
                 = (Inl (CalledProcessError 1), fs2)
          \<and> (\<forall>q. lookup fs2 q
                 = (if q \<noteq> [] \<and> butlast q = root plain_context @ [''var'', ''log'']
                       \<and> is_log_name (last q)
                    then None else lookup log_files_fs q))"
    using invoke_removes_log_files
        [where run = run_failing and ctx = plain_context and operation = "''install''"
           and arguments = "[''bash'']" and fs = log_files_fs
           and outcome = "Inl (CalledProcessError 1)" and ?fs1.0 = log_files_fs, OF h]
      d nd
    by blast
  then obtain fs2 where
    i: "invoke run_failing plain_context ''install'' [''bash''] log_files_fs
          = (Inl (CalledProcessError 1), fs2)"
    and look: "\<And>q. lookup fs2 q
                 = (if q \<noteq> [] \<and> butlast q = root plain_context @ [''var'', ''log'']
                       \<and> is_log_name (last q)
                    then None else lookup log_files_fs q)"
    by blast
  have "lookup fs2 [''work'', ''root'', ''var'', ''log'', ''dnf5.log''] = None"
    by (simp add: look plain_context_def is_log_name_def startswith_def)
  moreover have "lookup fs2 [''work'', ''root'', ''var'', ''log'', ''hawkey.log''] = None"
    by (simp add: look plain_context_def is_log_name_def startswith_def)
  moreover have "lookup fs2 [''work'', ''root'', ''var'', ''log'', ''lastlog'']
                   = lookup log_files_fs [''work'', ''root'', ''var'', ''log'', ''lastlog'']"
    by (simp add: look plain_context_def is_log_name_def startswith_def)
  moreover have "lookup log_files_fs [''work'', ''root'', ''var'', ''log'', ''lastlog'']
                   = Some (File ''b'')"
    by (simp add: lookup_def log_files_fs_def)
  ultimately show ?thesis
    using h i by auto
qed

text \<open>
  C6 (as stated) fails when an entry of the log directory with one of the prefixes is a
  directory: \<open>unlink\<close> raises for it, the entry stays, and so does every entry that the
  loop has not reached yet.
\<close>

theorem invoke_directory_entry_counterexample:
  "is_log_name ''dnf.d''
   \<and> lookup log_directory_fs [''work'', ''root'', ''var'', ''log'', ''dnf.d''] = Some Dir
   \<and> invoke run_ok plain_context ''install'' [''bash''] log_directory_fs
       = (Inl IsADirectoryError, log_directory_fs)"
  by code_simp

section \<open>The sync orchestrator\<close>

lemma dedent_local_repo_text:
  "dedent local_repo_text
     = ''[mkosi]\<newline>name=mkosi\<newline>baseurl=file:///work/packages\<newline>gpgcheck=0\<newline>metadata_expire=never\<newline>priority=50\<newline>''"
  by code_simp

text \<open>
  C7.  When the indexing tool has returned and the repository directory exists,
  \<open>createrepo\<close> replaces whatever is at \<open>etc/yum.repos.d/mkosi-local.repo\<close> (unless it is a
  directory) by the fixed stanza, changes no other path, and goes on as \<open>sync\<close> with the
  options \<open>--disablerepo=*\<close> and \<open>--enablerepo=mkosi\<close> on the resulting file system.
\<close>

theorem createrepo_overwrites_local_repo:
  assumes "run [''createrepo_c'', path_str (packages ctx)] fs = (Inr r, fs1)"
    and "is_dir fs1 (pkgmngr ctx @ [''etc'', ''yum.repos.d''])"
    and "lookup fs1 (mkosi_local_repo ctx) \<noteq> Some Dir"
  shows "\<exists>fs2. lookup fs2 (mkosi_local_repo ctx)
                 = Some (File ''[mkosi]\<newline>name=mkosi\<newline>baseurl=file:///work/packages\<newline>gpgcheck=0\<newline>metadata_expire=never\<newline>priority=50\<newline>'')
           \<and> (\<forall>q. q \<noteq> mkosi_local_repo ctx \<longrightarrow> lookup fs2 q = lookup fs1 q)
           \<and> createrepo run ctx fs
               = sync run ctx [''--disablerepo=*'', ''--enablerepo=mkosi''] fs2"
proof -
  have nd: "\<not> is_dir fs1 (mkosi_local_repo ctx)"
    using assms(3) by (simp add: is_dir_def mkosi_local_repo_def)
  have parent: "is_dir fs1 (butlast (mkosi_local_repo ctx))"
    using assms(2) by (simp add: mkosi_local_repo_def butlast_append)
  have w: "write_file (mkosi_local_repo ctx) (dedent local_repo_text) fs1
             = (None, AList.update (mkosi_local_repo ctx) (File (dedent local_repo_text)) fs1)"
    using nd parent by (simp add: write_file_def)
  have c: "createrepo run ctx fs
             = sync run ctx [''--disablerepo=*'', ''--enablerepo=mkosi'']
                 (AList.update (mkosi_local_repo ctx) (File (dedent local_repo_text)) fs1)"
    using assms(1) w by (simp add: createrepo_def seq_def)
  show ?thesis
  proof (intro exI conjI allI impI)
    show "createrepo run ctx fs
            = sync run ctx [''--disablerepo=*'', ''--enablerepo=mkosi'']
                (AList.update (mkosi_local_repo ctx) (File (dedent local_repo_text)) fs1)"
      by (rule c)
    show "lookup (AList.update (mkosi_local_repo ctx) (File (dedent local_repo_text)) fs1)
            (mkosi_local_repo ctx)
          = Some (File ''[mkosi]\<newline>name=mkosi\<newline>baseurl=file:///work/packages\<newline>gpgcheck=0\<newline>metadata_expire=never\<newline>priority=50\<newline>'')"
      by (simp add: lookup_update dedent_local_repo_text)
  next
    fix q
    assume "q \<noteq> mkosi_local_repo ctx"
    then show "lookup (AList.update (mkosi_local_repo ctx) (File (dedent local_repo_text)) fs1) q
                 = lookup fs1 q"
      by (simp add: lookup_update)
  qed
qed

theorem createrepo_overwrites_local_repo_witness:
  "lookup customized_local_repo_fs (mkosi_local_repo plain_context)
     = Some (File ''[mine]\<newline>baseurl=file:///elsewhere\<newline>'')
   \<and> (\<exists>fs2. lookup fs2 (mkosi_local_repo plain_context)
                = Some (File ''[mkosi]\<newline>name=mkosi\<newline>baseurl=file:///work/packages\<newline>gpgcheck=0\<newline>metadata_expire=never\<newline>priority=50\<newline>'')
          \<and> createrepo run_ok plain_context customized_local_repo_fs
              = sync run_ok plain_context [''--disablerepo=*'', ''--enablerepo=mkosi''] fs2)"
proof -
  have h: "run_ok [''createrepo_c'', path_str (packages plain_context)] customized_local_repo_fs
             = (Inr \<lparr> returncode = 0 \<rparr>, customized_local_repo_fs)"
    by (simp add: run_ok_def)
  have d: "is_dir customized_local_repo_fs (pkgmngr plain_context @ [''etc'', ''yum.repos.d''])"
    by (simp add: is_dir_def lookup_def customized_local_repo_fs_def plain_context_def)
  have f: "lookup customized_local_repo_fs (mkosi_local_repo plain_context)
             = Some (File ''[mine]\<newline>baseurl=file:///elsewhere\<newline>'')"
    by (simp add: lookup_def customized_local_repo_fs_def plain_context_def
        mkosi_local_repo_def)
  then have nd: "lookup customized_local_repo_fs (mkosi_local_repo plain_context) \<noteq> Some Dir"
    by simp
  show ?thesis
    using createrepo_overwrites_local_repo
        [where run = run_ok and ctx = plain_context and fs = customized_local_repo_fs
           and r = "\<lparr> returncode = 0 \<rparr>" and ?fs1.0 = customized_local_repo_fs, OF h d nd]
      f
    by blast
qed

end
